theory Spec2Isabelle
  imports Complex_Main
begin

section \<open>Values of the host language\<close>

text \<open>
  The attendance route (\<^verbatim>\<open>src/app/api/upload/route.ts\<close>) is TypeScript. Its numbers are
  IEEE-754 doubles: a finite one is given by its rational value, next to the three values
  that are not finite, and the arithmetic of the batch totals and of the date parser rounds
  to the nearest double. The integers that \<^verbatim>\<open>parseInt\<close> reads and the minutes computed from
  them are kept as exact integers, which is what the code has as long as they stay below
  \<open>2^53\<close>; the hours of a daily record are kept as the decimal values that the record
  shows. Strings are lists of 8-bit characters read as Latin-1 code units.
\<close>

datatype number = NaN | PosInf | NegInf | Fin rat

text \<open>A spreadsheet cell as typed by \<^verbatim>\<open>ExcelRow\<close>: \<^verbatim>\<open>string | number | undefined\<close>, and
  \<^verbatim>\<open>null\<close>.\<close>

datatype cell = Undefined | Null | Str string | Num number

text \<open>A \<^verbatim>\<open>Date\<close> object is its time value: milliseconds since the Unix epoch, or
  \<open>None\<close> for the invalid date (time value NaN).\<close>

type_synonym Date = "int option"

text \<open>The argument of the date parsers has type \<^verbatim>\<open>any\<close>: a cell or a native date.\<close>

datatype anyval = Prim cell | DateObject Date

text \<open>
  What the functions read from their surroundings: the clock (\<^verbatim>\<open>new Date()\<close>), the
  local time zone adjustment used by \<^verbatim>\<open>getDay\<close>, the engine's parser of date text
  (\<^verbatim>\<open>new Date(string)\<close>, engine-defined outside the ISO format), and the rendering of
  numbers that are not integers below \<open>10^21\<close> (shortest round-trip digits of a double).
\<close>

record Env =
  now :: int
  localTZA :: "int \<Rightarrow> int"
  dateParse :: "string \<Rightarrow> int option"
  fracToString :: "rat \<Rightarrow> string"

subsection \<open>Double arithmetic\<close>

text \<open>
  The nearest double of a rational, ties to even: with \<open>e\<close> the binary exponent of the
  value (not below the exponent of the subnormals) the value is rounded to a multiple of
  \<open>2^(e - 52)\<close>; a result of \<open>2^1024\<close> or more is an infinity.
\<close>

function bitLength :: "int \<Rightarrow> nat" where
  "bitLength k = (if k \<le> 0 then 0 else Suc (bitLength (k div 2)))"
  by pat_completeness auto
termination
  by (relation "measure nat") auto

declare bitLength.simps [simp del]

definition pow2 :: "int \<Rightarrow> rat" where
  "pow2 e = (if 0 \<le> e then 2 ^ nat e else 1 / 2 ^ nat (- e))"

text \<open>The exponent \<open>e\<close> with \<open>2^e \<le> |x| < 2^(e + 1)\<close>, for \<open>x\<close> other than 0.\<close>

definition binExp :: "rat \<Rightarrow> int" where
  "binExp x =
     (let a = \<bar>x\<bar>
      in if 1 \<le> a then int (bitLength \<lfloor>a\<rfloor>) - 1
         else - int (bitLength (\<lceil>1 / a\<rceil> - 1)))"

definition roundHalfEven :: "rat \<Rightarrow> int" where
  "roundHalfEven x =
     (let f = \<lfloor>x\<rfloor>; r = x - of_int f
      in if r < 1 / 2 then f else if 1 / 2 < r then f + 1 else if even f then f else f + 1)"

definition toDouble :: "rat \<Rightarrow> number" where
  "toDouble x =
     (if x = 0 then Fin 0
      else
        let e = max (binExp x) (- 1022);
            n = roundHalfEven (x / pow2 (e - 52))
        in if 1024 \<le> e \<or> (e = 1023 \<and> \<bar>n\<bar> = 2 ^ 53) then (if 0 < x then PosInf else NegInf)
           else Fin (of_int n * pow2 (e - 52)))"

text \<open>A number written \<open>Fin q\<close> stands for the double nearest to \<open>q\<close>; the operations
  take their operands in this sense.\<close>

definition canon :: "number \<Rightarrow> number" where
  "canon n = (case n of Fin q \<Rightarrow> toDouble q | _ \<Rightarrow> n)"

definition negD :: "number \<Rightarrow> number" where
  "negD n = (case n of NaN \<Rightarrow> NaN | PosInf \<Rightarrow> NegInf | NegInf \<Rightarrow> PosInf | Fin x \<Rightarrow> Fin (- x))"

fun addD :: "number \<Rightarrow> number \<Rightarrow> number" where
  "addD (Fin x) (Fin y) = toDouble (x + y)"
| "addD NaN b = NaN"
| "addD a NaN = NaN"
| "addD PosInf NegInf = NaN"
| "addD NegInf PosInf = NaN"
| "addD PosInf b = PosInf"
| "addD NegInf b = NegInf"
| "addD (Fin x) b = b"

text \<open>An infinity times or divided by a finite value: the sign follows the sign of the
  value. (The sign of a zero is not represented; a zero counts as positive.)\<close>

definition infBy :: "number \<Rightarrow> rat \<Rightarrow> number" where
  "infBy a y = (if 0 \<le> y then a else negD a)"

fun mulD :: "number \<Rightarrow> number \<Rightarrow> number" where
  "mulD (Fin x) (Fin y) = toDouble (x * y)"
| "mulD NaN b = NaN"
| "mulD a NaN = NaN"
| "mulD (Fin x) b = (if x = 0 then NaN else infBy b x)"
| "mulD a (Fin y) = (if y = 0 then NaN else infBy a y)"
| "mulD PosInf b = b"
| "mulD NegInf b = negD b"

fun divD :: "number \<Rightarrow> number \<Rightarrow> number" where
  "divD (Fin x) (Fin y) =
     (if y = 0 then (if x = 0 then NaN else if 0 < x then PosInf else NegInf)
      else toDouble (x / y))"
| "divD NaN b = NaN"
| "divD a NaN = NaN"
| "divD (Fin x) b = Fin 0"
| "divD a (Fin y) = infBy a y"
| "divD a b = NaN"

fun gtD :: "number \<Rightarrow> number \<Rightarrow> bool" where
  "gtD (Fin x) (Fin y) = (y < x)"
| "gtD NaN b = False"
| "gtD a NaN = False"
| "gtD PosInf b = (b \<noteq> PosInf)"
| "gtD NegInf b = False"
| "gtD (Fin x) b = (b = NegInf)"

definition numAdd :: "number \<Rightarrow> number \<Rightarrow> number" where
  "numAdd a b = addD (canon a) (canon b)"

definition numSub :: "number \<Rightarrow> number \<Rightarrow> number" where
  "numSub a b = addD (canon a) (negD (canon b))"

definition numMul :: "number \<Rightarrow> number \<Rightarrow> number" where
  "numMul a b = mulD (canon a) (canon b)"

definition numDiv :: "number \<Rightarrow> number \<Rightarrow> number" where
  "numDiv a b = divD (canon a) (canon b)"

definition numGt :: "number \<Rightarrow> number \<Rightarrow> bool" where
  "numGt a b = gtD (canon a) (canon b)"

text \<open>\<^verbatim>\<open>Math.round\<close>: the nearest integer, halves up; exact on every double.\<close>

definition MathRound :: "number \<Rightarrow> number" where
  "MathRound n = (case canon n of Fin x \<Rightarrow> Fin (of_int \<lfloor>x + 1 / 2\<rfloor>) | m \<Rightarrow> m)"

subsection \<open>Truthiness and conversion to string\<close>

fun falsy :: "cell \<Rightarrow> bool" where
  "falsy Undefined = True"
| "falsy Null = True"
| "falsy (Str s) = (s = [])"
| "falsy (Num n) = (n = NaN \<or> n = Fin 0)"

definition digitChar :: "nat \<Rightarrow> char" where
  "digitChar d = char_of (48 + d)"

fun natToString :: "nat \<Rightarrow> string" where
  "natToString n = (if n < 10 then [digitChar n] else natToString (n div 10) @ [digitChar (n mod 10)])"

declare natToString.simps [simp del]

definition intToString :: "int \<Rightarrow> string" where
  "intToString i = (if i < 0 then CHR ''-'' # natToString (nat (- i)) else natToString (nat i))"

definition isInteger :: "rat \<Rightarrow> bool" where
  "isInteger q = (of_int \<lfloor>q\<rfloor> = q)"

definition numberToString :: "Env \<Rightarrow> number \<Rightarrow> string" where
  "numberToString env n =
     (case n of
        NaN \<Rightarrow> ''NaN''
      | PosInf \<Rightarrow> ''Infinity''
      | NegInf \<Rightarrow> ''-Infinity''
      | Fin q \<Rightarrow> if isInteger q \<and> \<bar>q\<bar> < 10 ^ 21 then intToString \<lfloor>q\<rfloor> else fracToString env q)"

definition String :: "Env \<Rightarrow> cell \<Rightarrow> string" where
  "String env v =
     (case v of
        Undefined \<Rightarrow> ''undefined''
      | Null \<Rightarrow> ''null''
      | Str s \<Rightarrow> s
      | Num n \<Rightarrow> numberToString env n)"

subsection \<open>String operations\<close>

definition isWhiteSpace :: "char \<Rightarrow> bool" where
  "isWhiteSpace c = (of_char c \<in> {9, 10, 11, 12, 13, 32, 160 :: nat})"

definition trimStart :: "string \<Rightarrow> string" where
  "trimStart s = dropWhile isWhiteSpace s"

definition trim :: "string \<Rightarrow> string" where
  "trim s = rev (dropWhile isWhiteSpace (rev (dropWhile isWhiteSpace s)))"

definition includesChar :: "string \<Rightarrow> char \<Rightarrow> bool" where
  "includesChar s c = (c \<in> set s)"

text \<open>\<^verbatim>\<open>s.split(sep)\<close> for a one-character separator: the pieces between the separators,
  one more than there are separators.\<close>

function split :: "char \<Rightarrow> string \<Rightarrow> string list" where
  "split sep s =
     (case dropWhile (\<lambda>c. c \<noteq> sep) s of
        [] \<Rightarrow> [s]
      | _ # rest \<Rightarrow> takeWhile (\<lambda>c. c \<noteq> sep) s # split sep rest)"
  by pat_completeness auto
termination
proof (relation "measure (\<lambda>(sep, s). length s)")
  show "wf (measure (\<lambda>(sep, s). length s))" by simp
next
  fix sep :: char and s :: string and x21 :: char and x22 :: string
  assume "dropWhile (\<lambda>c. c \<noteq> sep) s = x21 # x22"
  then have "length (x21 # x22) \<le> length s"
    using length_dropWhile_le [of "\<lambda>c. c \<noteq> sep" s] by simp
  then show "((sep, x22), (sep, s)) \<in> measure (\<lambda>(sep, s). length s)" by simp
qed

declare split.simps [simp del]

definition padStart :: "nat \<Rightarrow> char \<Rightarrow> string \<Rightarrow> string" where
  "padStart n c s = replicate (n - length s) c @ s"

subsection \<open>\<^verbatim>\<open>parseInt(s, 10)\<close>\<close>

definition isDigit :: "char \<Rightarrow> bool" where
  "isDigit c = (48 \<le> (of_char c :: nat) \<and> (of_char c :: nat) \<le> 57)"

definition digitVal :: "char \<Rightarrow> nat" where
  "digitVal c = of_char c - 48"

definition decValue :: "string \<Rightarrow> nat" where
  "decValue ds = foldl (\<lambda>a c. 10 * a + digitVal c) 0 ds"

text \<open>Leading white space is skipped, one sign is read, then the longest run of decimal
  digits; an empty run is NaN, here \<open>None\<close>. Whatever follows the digits is ignored.\<close>

definition parseInt :: "string \<Rightarrow> int option" where
  "parseInt s =
     (let S = trimStart s;
          neg = (S \<noteq> [] \<and> hd S = CHR ''-'');
          S' = (if S \<noteq> [] \<and> (hd S = CHR ''+'' \<or> hd S = CHR ''-'') then tl S else S);
          Z = takeWhile isDigit S'
      in if Z = [] then None
         else Some (if neg then - int (decValue Z) else int (decValue Z)))"

section \<open>The time parser\<close>

record ParsedTime =
  str :: string
  mins :: int

definition parseTime :: "Env \<Rightarrow> cell \<Rightarrow> ParsedTime option" where
  "parseTime env timeVal =
     (if falsy timeVal then None
      else
        let timeStr = trim (String env timeVal) in
        if timeStr = [] then None
        else
          let separator = (if includesChar timeStr CHR '':'' then CHR '':'' else CHR ''.'');
              parts = split separator timeStr
          in if length parts < 2 then None
             else
               (case parseInt (parts ! 0) of
                  None \<Rightarrow> None
                | Some hours \<Rightarrow>
                    (case parseInt (parts ! 1) of
                       None \<Rightarrow> None
                     | Some minutes \<Rightarrow>
                         Some \<lparr> str = padStart 2 CHR ''0'' (intToString hours) @ '':'' @
                                      padStart 2 CHR ''0'' (intToString minutes),
                                mins = hours * 60 + minutes \<rparr>)))"

section \<open>Dates\<close>

datatype error = RangeError | BadRequest string | InternalServerError

definition msPerDay :: int where
  "msPerDay = 86400000"

text \<open>\<^verbatim>\<open>new Date(number)\<close>: a time value beyond 8.64e15 ms, or not finite, is the invalid
  date; a fraction is cut off towards zero.\<close>

definition TimeClip :: "number \<Rightarrow> Date" where
  "TimeClip n =
     (case n of
        Fin q \<Rightarrow> if \<bar>q\<bar> > 8640000000000000 then None
                 else Some (if 0 \<le> q then \<lfloor>q\<rfloor> else \<lceil>q\<rceil>)
      | _ \<Rightarrow> None)"

text \<open>\<^verbatim>\<open>Math.round((dateVal - 25569) * 86400 * 1000)\<close>, each operation in double
  arithmetic, from left to right.\<close>

definition serialToMillis :: "number \<Rightarrow> number" where
  "serialToMillis dateVal =
     MathRound (numMul (numMul (numSub dateVal (Fin 25569)) (Fin 86400)) (Fin 1000))"

text \<open>\<^verbatim>\<open>new Date(v)\<close> for a cell: text goes to the engine's parser, anything else is
  converted to a number of milliseconds (\<^verbatim>\<open>undefined\<close> to NaN, \<^verbatim>\<open>null\<close> to 0).\<close>

definition newDate :: "Env \<Rightarrow> cell \<Rightarrow> Date" where
  "newDate env v =
     (case v of
        Undefined \<Rightarrow> None
      | Null \<Rightarrow> Some 0
      | Str s \<Rightarrow> dateParse env s
      | Num n \<Rightarrow> TimeClip n)"

definition parseDate :: "Env \<Rightarrow> anyval \<Rightarrow> Date" where
  "parseDate env dateVal =
     (case dateVal of
        DateObject d \<Rightarrow> d
      | Prim (Num n) \<Rightarrow> TimeClip (serialToMillis n)
      | Prim c \<Rightarrow> (case newDate env c of None \<Rightarrow> Some (now env) | Some t \<Rightarrow> Some t))"

text \<open>\<^verbatim>\<open>isValid\<close> of the date-fns library: a date object is valid unless its time value is
  NaN.\<close>

definition isValid :: "Date \<Rightarrow> bool" where
  "isValid d = (d \<noteq> None)"

text \<open>The parser of the third version of the route, which has no branch for numbers.\<close>

definition parseDateString :: "Env \<Rightarrow> anyval \<Rightarrow> Date" where
  "parseDateString env dateVal =
     (case dateVal of
        DateObject d \<Rightarrow> d
      | Prim c \<Rightarrow> (let d = newDate env c in if isValid d then d else Some (now env)))"

text \<open>\<^verbatim>\<open>getDay\<close>: the day of the week in local time, 0 for Sunday; NaN (\<open>None\<close>) for the
  invalid date. The epoch was a Thursday.\<close>

definition getDay :: "Env \<Rightarrow> Date \<Rightarrow> int option" where
  "getDay env d =
     (case d of
        None \<Rightarrow> None
      | Some t \<Rightarrow> Some (((t + localTZA env t) div msPerDay + 4) mod 7))"

text \<open>Year, month and day of the proleptic Gregorian calendar from the number of the day
  counted from the epoch.\<close>

definition civilFromDays :: "int \<Rightarrow> int \<times> int \<times> int" where
  "civilFromDays z0 =
     (let z = z0 + 719468;
          era = z div 146097;
          doe = z mod 146097;
          yoe = (doe - doe div 1460 + doe div 36524 - doe div 146096) div 365;
          doy = doe - (365 * yoe + yoe div 4 - yoe div 100);
          mp = (5 * doy + 2) div 153;
          d = doy - (153 * mp + 2) div 5 + 1;
          m = (if mp < 10 then mp + 3 else mp - 9);
          y = yoe + era * 400 + (if m \<le> 2 then 1 else 0)
      in (y, m, d))"

definition padInt :: "nat \<Rightarrow> int \<Rightarrow> string" where
  "padInt w i = padStart w CHR ''0'' (natToString (nat i))"

text \<open>\<^verbatim>\<open>toISOString\<close> throws a RangeError on the invalid date.\<close>

definition toISOString :: "Date \<Rightarrow> error + string" where
  "toISOString d =
     (case d of
        None \<Rightarrow> Inl RangeError
      | Some t \<Rightarrow>
          (case civilFromDays (t div msPerDay) of
             (y, m, dd) \<Rightarrow>
               let ms = t mod msPerDay;
                   ys = (if 0 \<le> y \<and> y \<le> 9999 then padInt 4 y
                         else (if y < 0 then ''-'' else ''+'') @ padInt 6 \<bar>y\<bar>)
               in Inr (ys @ ''-'' @ padInt 2 m @ ''-'' @ padInt 2 dd @ ''T'' @
                       padInt 2 (ms div 3600000) @ '':'' @ padInt 2 (ms div 60000 mod 60) @ '':'' @
                       padInt 2 (ms div 1000 mod 60) @ ''.'' @ padInt 3 (ms mod 1000) @ ''Z'')))"

section \<open>Fixed-point rendering\<close>

text \<open>\<^verbatim>\<open>x.toFixed(f)\<close> below 1e21: the integer nearest to \<open>x * 10^f\<close>, the larger one of
  two, written with \<open>f\<close> digits after the point; the sign of a negative \<open>x\<close> goes in
  front.\<close>

definition toFixed :: "nat \<Rightarrow> rat \<Rightarrow> string" where
  "toFixed f x =
     (let n = nat \<lfloor>\<bar>x\<bar> * 10 ^ f + 1 / 2\<rfloor>;
          m = natToString n;
          m' = (if f = 0 then m
                else let mp = padStart (f + 1) CHR ''0'' m; k = length mp
                     in take (k - f) mp @ ''.'' @ drop (k - f) mp)
      in if x < 0 then CHR ''-'' # m' else m')"

text \<open>\<^verbatim>\<open>toFixed\<close> on a double: a value that is not finite, or is 1e21 or more, is written
  as \<^verbatim>\<open>String\<close> writes it.\<close>

definition toFixedNumber :: "Env \<Rightarrow> nat \<Rightarrow> number \<Rightarrow> string" where
  "toFixedNumber env f n =
     (case canon n of
        Fin x \<Rightarrow> if \<bar>x\<bar> < 10 ^ 21 then toFixed f x else numberToString env (Fin x)
      | m \<Rightarrow> numberToString env m)"

text \<open>\<^verbatim>\<open>Number(s)\<close> on the decimal literals that \<^verbatim>\<open>toFixed\<close> writes: a sign, digits, and
  digits after a point. (Other text is NaN in the source and is never passed.)\<close>

definition Number :: "string \<Rightarrow> rat" where
  "Number s =
     (let neg = (s \<noteq> [] \<and> hd s = CHR ''-'');
          u = (if neg then tl s else s);
          ip = takeWhile isDigit u;
          rest = dropWhile isDigit u;
          fp = (if rest \<noteq> [] \<and> hd rest = CHR ''.'' then takeWhile isDigit (tl rest) else []);
          v = of_nat (decValue ip) + of_nat (decValue fp) / 10 ^ length fp
      in if neg then - v else v)"

section \<open>The daily metrics\<close>

definition WEEKDAY_HOURS :: rat where
  "WEEKDAY_HOURS = 17 / 2"

definition SATURDAY_HOURS :: rat where
  "SATURDAY_HOURS = 4"

definition SUNDAY_HOURS :: rat where
  "SUNDAY_HOURS = 0"

text \<open>A row maps column labels to cells; reading a label that is not there gives
  \<^verbatim>\<open>undefined\<close>.\<close>

type_synonym ExcelRow = "string \<rightharpoonup> cell"

definition getCol :: "ExcelRow \<Rightarrow> string \<Rightarrow> cell" where
  "getCol row k = (case row k of None \<Rightarrow> Undefined | Some v \<Rightarrow> v)"

record DailyRecord =
  date :: string
  dayName :: string
  inTime :: string
  outTime :: string
  expectedHours :: rat
  workedHours :: rat
  isLeave :: bool

text \<open>\<^verbatim>\<open>calculateDailyMetrics\<close> of the first version of the route. The comparisons of
  \<^verbatim>\<open>dayIndex\<close> with 0 and 6 are false on NaN; \<^verbatim>\<open>toISOString\<close> in the returned object is
  where an invalid date throws.\<close>

definition calculateDailyMetrics :: "Env \<Rightarrow> ExcelRow \<Rightarrow> error + DailyRecord" where
  "calculateDailyMetrics env row =
     (let d = parseDate env (Prim (getCol row ''Date''));
          dayIndex = getDay env d;
          expectedAndName =
            (if dayIndex = Some 0 then (SUNDAY_HOURS, ''Sunday'')
             else if dayIndex = Some 6 then (SATURDAY_HOURS, ''Saturday'')
             else (WEEKDAY_HOURS, ''Weekday''));
          inObj = parseTime env (getCol row ''In-Time'');
          outObj = parseTime env (getCol row ''Out-Time'');
          workedAndLeave =
            (if dayIndex \<noteq> Some 0 then
               (case (inObj, outObj) of
                  (Some i, Some out) \<Rightarrow>
                    (let diffMins = mins out - mins i
                     in (if diffMins > 0 then Number (toFixed 2 (of_int diffMins / 60)) else 0,
                         False))
                | _ \<Rightarrow> (0, True))
             else (0, False))
      in case toISOString d of
           Inl e \<Rightarrow> Inl e
         | Inr isoStr \<Rightarrow>
             Inr \<lparr> date = isoStr,
                   dayName = snd expectedAndName,
                   inTime = (case inObj of None \<Rightarrow> ''-'' | Some i \<Rightarrow> str i),
                   outTime = (case outObj of None \<Rightarrow> ''-'' | Some out \<Rightarrow> str out),
                   expectedHours = fst expectedAndName,
                   workedHours = fst workedAndLeave,
                   isLeave = snd workedAndLeave \<rparr>)"

section \<open>The batch loop\<close>

record Acc =
  records :: "DailyRecord list"
  totalExpected :: number
  totalWorked :: number
  leavesTaken :: nat
  employeeName :: string

definition initAcc :: Acc where
  "initAcc = \<lparr> records = [], totalExpected = Fin 0, totalWorked = Fin 0, leavesTaken = 0,
               employeeName = ''Unknown Employee'' \<rparr>"

text \<open>The loop body after the metrics of the row are known. The hours of the record are
  doubles, and the sums are sums of doubles.\<close>

definition accumulate :: "Acc \<Rightarrow> DailyRecord \<Rightarrow> Acc" where
  "accumulate a metrics =
     a \<lparr> records := records a @ [metrics],
         totalExpected := numAdd (totalExpected a) (Fin (expectedHours metrics)),
         totalWorked := numAdd (totalWorked a) (Fin (workedHours metrics)),
         leavesTaken := (if isLeave metrics then leavesTaken a + 1 else leavesTaken a) \<rparr>"

fun forEachRow :: "Env \<Rightarrow> nat \<Rightarrow> ExcelRow list \<Rightarrow> Acc \<Rightarrow> error + Acc" where
  "forEachRow env index [] a = Inr a"
| "forEachRow env index (row # rows) a =
     (let a1 = (if index = 0 \<and> \<not> falsy (getCol row ''Employee Name'')
                then a \<lparr> employeeName := String env (getCol row ''Employee Name'') \<rparr> else a)
      in case calculateDailyMetrics env row of
           Inl e \<Rightarrow> Inl e
         | Inr metrics \<Rightarrow> forEachRow env (index + 1) rows (accumulate a1 metrics))"

record Summary =
  sEmployeeName :: string
  sTotalExpected :: number
  sTotalWorked :: number
  sLeavesTaken :: nat
  productivity :: string
  sRecords :: "DailyRecord list"

definition summarize :: "Env \<Rightarrow> Acc \<Rightarrow> Summary" where
  "summarize env a =
     \<lparr> sEmployeeName = employeeName a,
       sTotalExpected = totalExpected a,
       sTotalWorked = totalWorked a,
       sLeavesTaken = leavesTaken a,
       productivity =
         (if numGt (totalExpected a) (Fin 0)
          then toFixedNumber env 1 (numMul (numDiv (totalWorked a) (totalExpected a)) (Fin 100))
          else ''0.0''),
       sRecords = records a \<rparr>"

text \<open>The handler from the decoded rows on: no rows is a 400, an exception anywhere in the
  loop is caught and answered with a 500.\<close>

definition POST :: "Env \<Rightarrow> ExcelRow list \<Rightarrow> error + Summary" where
  "POST env jsonData =
     (if jsonData = [] then Inl (BadRequest ''No data found in sheet'')
      else case forEachRow env 0 jsonData initAcc of
             Inl e \<Rightarrow> Inl InternalServerError
           | Inr a \<Rightarrow> Inr (summarize env a))"

text \<open>The loop and the final productivity on records that are already computed.\<close>

definition aggregate :: "Env \<Rightarrow> DailyRecord list \<Rightarrow> Summary" where
  "aggregate env rs = summarize env (foldl accumulate initAcc rs)"

section \<open>A sample engine\<close>

text \<open>For evaluating concrete rows: UTC as local time, a clock reading given as argument,
  a date parser that accepts the date-only ISO form \<^verbatim>\<open>YYYY-MM-DD\<close> (UTC midnight) and
  nothing else, and plain decimal expansion of fractions.\<close>

definition daysFromCivil :: "int \<Rightarrow> int \<Rightarrow> int \<Rightarrow> int" where
  "daysFromCivil y m d =
     (let y' = (if m \<le> 2 then y - 1 else y);
          era = y' div 400;
          yoe = y' mod 400;
          doy = (153 * (if m > 2 then m - 3 else m + 9) + 2) div 5 + d - 1;
          doe = yoe * 365 + yoe div 4 - yoe div 100 + doy
      in era * 146097 + doe - 719468)"

definition daysInMonth :: "int \<Rightarrow> int \<Rightarrow> int" where
  "daysInMonth y m =
     (if m = 2 then (if y mod 4 = 0 \<and> (y mod 100 \<noteq> 0 \<or> y mod 400 = 0) then 29 else 28)
      else if m \<in> {4, 6, 9, 11} then 30 else 31)"

definition isoDateOnly :: "string \<Rightarrow> int option" where
  "isoDateOnly s =
     (if length s = 10 \<and> s ! 4 = CHR ''-'' \<and> s ! 7 = CHR ''-'' \<and>
         list_all isDigit (take 4 s @ take 2 (drop 5 s) @ drop 8 s)
      then let y = int (decValue (take 4 s));
               m = int (decValue (take 2 (drop 5 s)));
               d = int (decValue (drop 8 s))
           in if 1 \<le> m \<and> m \<le> 12 \<and> 1 \<le> d \<and> d \<le> daysInMonth y m
              then Some (daysFromCivil y m d * msPerDay) else None
      else None)"

fun fracDigits :: "nat \<Rightarrow> rat \<Rightarrow> string" where
  "fracDigits 0 r = []"
| "fracDigits (Suc k) r =
     (if r = 0 then []
      else digitChar (nat \<lfloor>r * 10\<rfloor>) # fracDigits k (r * 10 - of_int \<lfloor>r * 10\<rfloor>))"

definition plainDecimal :: "rat \<Rightarrow> string" where
  "plainDecimal q =
     (let a = \<bar>q\<bar>;
          ds = fracDigits 17 (a - of_int \<lfloor>a\<rfloor>)
      in (if q < 0 then [CHR ''-''] else []) @ natToString (nat \<lfloor>a\<rfloor>) @
         (if ds = [] then [] else CHR ''.'' # ds))"

definition utcEnv :: "int \<Rightarrow> Env" where
  "utcEnv t = \<lparr> now = t, localTZA = (\<lambda>_. 0), dateParse = isoDateOnly,
                fracToString = plainDecimal \<rparr>"

section \<open>Notions of the specification\<close>

text \<open>Rounding to two decimal places, halves up.\<close>

definition round2 :: "rat \<Rightarrow> rat" where
  "round2 x = of_int \<lfloor>x * 100 + 1 / 2\<rfloor> / 100"

text \<open>A value rounded to one decimal and written in fixed-point form: the integer part,
  a point, one digit.\<close>

definition fixed1 :: "rat \<Rightarrow> string" where
  "fixed1 x =
     (let n = nat \<lfloor>x * 10 + 1 / 2\<rfloor>
      in natToString (n div 10) @ ''.'' @ [digitChar (n mod 10)])"

text \<open>The display format \<^verbatim>\<open>HH:MM\<close>: two digits, a colon, two digits.\<close>

definition isHHMM :: "string \<Rightarrow> bool" where
  "isHHMM s =
     (length s = 5 \<and> isDigit (s ! 0) \<and> isDigit (s ! 1) \<and> s ! 2 = CHR '':'' \<and>
      isDigit (s ! 3) \<and> isDigit (s ! 4))"

text \<open>The conversion of a serial day count as the specification words it:
  \<open>round((serial - 25569) * 86400)\<close> seconds since the Unix epoch, here in milliseconds.\<close>

definition specSerialMillis :: "rat \<Rightarrow> int" where
  "specSerialMillis serial = \<lfloor>(serial - 25569) * 86400 + 1 / 2\<rfloor> * 1000"

text \<open>The calendar date (year, month, day) of a date value, in UTC.\<close>

definition calendarDate :: "Date \<Rightarrow> (int \<times> int \<times> int) option" where
  "calendarDate d = map_option (\<lambda>t. civilFromDays (t div msPerDay)) d"

section \<open>Example rows and records\<close>

definition sundayRow :: ExcelRow where
  "sundayRow = [''Date'' \<mapsto> Str ''2023-10-01'', ''In-Time'' \<mapsto> Str ''09:00'',
                ''Out-Time'' \<mapsto> Str ''17:30'']"

definition tuesdayRow :: ExcelRow where
  "tuesdayRow = [''Date'' \<mapsto> Str ''2023-10-03'', ''In-Time'' \<mapsto> Str ''09:00'']"

definition wednesdayRow :: ExcelRow where
  "wednesdayRow = [''Date'' \<mapsto> Num (Fin 45203), ''In-Time'' \<mapsto> Str ''09:00'',
                   ''Out-Time'' \<mapsto> Str ''17:30'']"

definition midnightRow :: ExcelRow where
  "midnightRow = [''Date'' \<mapsto> Str ''2023-10-04'', ''In-Time'' \<mapsto> Num (Fin 0),
                  ''Out-Time'' \<mapsto> Str ''08:00'']"

definition undatedRow :: ExcelRow where
  "undatedRow = [''Date'' \<mapsto> Str ''n/a'', ''In-Time'' \<mapsto> Str ''09:00'',
                 ''Out-Time'' \<mapsto> Str ''17:30'']"

definition saturdayRow :: ExcelRow where
  "saturdayRow = [''Date'' \<mapsto> Str ''2023-10-07'', ''In-Time'' \<mapsto> Str ''09:00'',
                  ''Out-Time'' \<mapsto> Str ''10:09'']"

definition saturdayRecord :: DailyRecord where
  "saturdayRecord =
     \<lparr>date = ''2023-10-07T00:00:00.000Z'', dayName = ''Saturday'', inTime = ''09:00'',
       outTime = ''10:09'', expectedHours = 4, workedHours = 23 / 20, isLeave = False\<rparr>"

definition shortSaturdayRow :: ExcelRow where
  "shortSaturdayRow = [''Date'' \<mapsto> Str ''2023-10-07'', ''In-Time'' \<mapsto> Str ''09:00'',
                       ''Out-Time'' \<mapsto> Str ''11:00'']"

definition emptySundayRow :: ExcelRow where
  "emptySundayRow = [''Date'' \<mapsto> Str ''2023-10-08'']"

definition exampleRows :: "ExcelRow list" where
  "exampleRows = [wednesdayRow, shortSaturdayRow, emptySundayRow]"

text \<open>The records of the example rows.\<close>

definition exampleRecords :: "DailyRecord list" where
  "exampleRecords =
     [\<lparr>date = ''2023-10-04T00:00:00.000Z'', dayName = ''Weekday'', inTime = ''09:00'',
        outTime = ''17:30'', expectedHours = 17 / 2, workedHours = 17 / 2, isLeave = False\<rparr>,
      \<lparr>date = ''2023-10-07T00:00:00.000Z'', dayName = ''Saturday'', inTime = ''09:00'',
        outTime = ''11:00'', expectedHours = 4, workedHours = 2, isLeave = False\<rparr>,
      \<lparr>date = ''2023-10-08T00:00:00.000Z'', dayName = ''Sunday'', inTime = ''-'',
        outTime = ''-'', expectedHours = 0, workedHours = 0, isLeave = False\<rparr>]"

section \<open>Digits\<close>

lemma digitVal_digitChar: "d < 10 \<Longrightarrow> digitVal (digitChar d) = d"
  by (simp add: digitVal_def digitChar_def)

lemma isDigit_digitChar: "d < 10 \<Longrightarrow> isDigit (digitChar d)"
  by (simp add: isDigit_def digitChar_def)

lemma digitChar_0: "digitChar 0 = CHR ''0''"
  by code_simp

lemma decValue_Nil: "decValue [] = 0"
  by (simp add: decValue_def)

lemma decValue_snoc: "decValue (xs @ [c]) = 10 * decValue xs + digitVal c"
  by (simp add: decValue_def)

lemma decValue_append: "decValue (xs @ ys) = decValue xs * 10 ^ length ys + decValue ys"
proof (induction ys rule: rev_induct)
  case Nil
  show ?case by (simp add: decValue_Nil)
next
  case (snoc y ys)
  have "decValue (xs @ ys @ [y]) = 10 * decValue (xs @ ys) + digitVal y"
    using decValue_snoc [of "xs @ ys" y] by simp
  then show ?case
    using snoc.IH by (simp add: decValue_snoc algebra_simps)
qed

lemma decValue_zeros: "decValue (replicate k CHR ''0'') = 0"
  by (induction k) (simp_all add: decValue_def digitVal_def)

lemma natToString_digits: "list_all isDigit (natToString n)"
proof (induction n rule: natToString.induct)
  case (1 n)
  show ?case
  proof (cases "n < 10")
    case True
    then show ?thesis by (subst natToString.simps) (simp add: isDigit_digitChar)
  next
    case False
    with 1 show ?thesis by (subst natToString.simps) (simp add: isDigit_digitChar)
  qed
qed

lemma natToString_nonempty: "natToString n \<noteq> []"
  by (subst natToString.simps) simp

lemma decValue_natToString: "decValue (natToString n) = n"
proof (induction n rule: natToString.induct)
  case (1 n)
  show ?case
  proof (cases "n < 10")
    case True
    then have "natToString n = [digitChar n]" by (subst natToString.simps) simp
    then show ?thesis using True by (simp add: decValue_def digitVal_digitChar)
  next
    case False
    then have "natToString n = natToString (n div 10) @ [digitChar (n mod 10)]"
      by (subst natToString.simps) simp
    then show ?thesis using 1 False by (simp add: decValue_snoc digitVal_digitChar)
  qed
qed

lemma padStart_digits: "list_all isDigit s \<Longrightarrow> list_all isDigit (padStart n CHR ''0'' s)"
  by (auto simp: padStart_def isDigit_def list_all_iff)

lemma decValue_padStart: "decValue (padStart n CHR ''0'' s) = decValue s"
  by (simp add: padStart_def decValue_append decValue_zeros)

lemma length_padStart: "length (padStart n c s) = max n (length s)"
  by (simp add: padStart_def)

lemma takeWhile_digits_dot:
  "list_all isDigit ds \<Longrightarrow> takeWhile isDigit (ds @ CHR ''.'' # r) = ds"
  by (induction ds) (simp_all add: isDigit_def)

lemma dropWhile_digits_dot:
  "list_all isDigit ds \<Longrightarrow> dropWhile isDigit (ds @ CHR ''.'' # r) = CHR ''.'' # r"
  by (induction ds) (simp_all add: isDigit_def)

lemma takeWhile_all: "list_all P ds \<Longrightarrow> takeWhile P ds = ds"
  by (induction ds) simp_all

section \<open>Fixed-point rendering and reading back\<close>

lemma Number_point:
  assumes "list_all isDigit a" "a \<noteq> []" "list_all isDigit b"
  shows "Number (a @ CHR ''.'' # b) = of_nat (decValue (a @ b)) / 10 ^ length b"
proof -
  have hd: "hd (a @ CHR ''.'' # b) \<noteq> CHR ''-''"
    using assms(1,2) by (cases a) (auto simp: isDigit_def)
  show ?thesis
    using assms hd
    by (simp add: Number_def Let_def takeWhile_digits_dot dropWhile_digits_dot
        takeWhile_all decValue_append field_simps)
qed

lemma Number_toFixed:
  assumes "0 \<le> x" "0 < f"
  shows "Number (toFixed f x) = of_int \<lfloor>x * 10 ^ f + 1 / 2\<rfloor> / 10 ^ f"
proof -
  define n where "n = nat \<lfloor>x * 10 ^ f + 1 / 2\<rfloor>"
  define mp where "mp = padStart (f + 1) CHR ''0'' (natToString n)"
  define k where "k = length mp"
  have dig: "list_all isDigit mp"
    unfolding mp_def by (rule padStart_digits) (rule natToString_digits)
  have klen: "f < k"
    unfolding k_def mp_def by (simp add: length_padStart)
  have tf: "toFixed f x = take (k - f) mp @ CHR ''.'' # drop (k - f) mp"
    using assms by (simp add: toFixed_def Let_def n_def mp_def k_def)
  have a: "list_all isDigit (take (k - f) mp)" "list_all isDigit (drop (k - f) mp)"
    using dig by (auto simp: list_all_iff dest: in_set_takeD in_set_dropD)
  have ne: "take (k - f) mp \<noteq> []"
    using klen k_def by (cases mp) auto
  have lb: "length (drop (k - f) mp) = f"
    using klen k_def by simp
  have "Number (toFixed f x) = of_nat (decValue (take (k - f) mp @ drop (k - f) mp)) / 10 ^ f"
    unfolding tf using Number_point [OF a(1) ne a(2)] lb by simp
  also have "\<dots> = of_nat n / 10 ^ f"
    by (simp add: mp_def decValue_padStart decValue_natToString)
  also have "of_nat n = (of_int \<lfloor>x * 10 ^ f + 1 / 2\<rfloor> :: rat)"
  proof -
    have "0 \<le> \<lfloor>x * 10 ^ f + 1 / 2\<rfloor>" using assms(1) by simp
    then show ?thesis unfolding n_def by simp
  qed
  finally show ?thesis .
qed

lemma Number_toFixed_2: "0 \<le> x \<Longrightarrow> Number (toFixed 2 x) = round2 x"
  using Number_toFixed [of x 2] by (simp add: round2_def)

lemma round2_nonneg: "0 \<le> x \<Longrightarrow> 0 \<le> round2 x"
  by (simp add: round2_def)


lemma toFixed_1:
  assumes "0 \<le> x"
  shows "toFixed 1 x = fixed1 x"
proof -
  define n where "n = nat \<lfloor>x * 10 + 1 / 2\<rfloor>"
  show ?thesis
  proof (cases "n < 10")
    case True
    then have a: "natToString n = [digitChar n]" by (subst natToString.simps) simp
    have b: "natToString (n div 10) = [digitChar 0]" using True by (subst natToString.simps) simp
    show ?thesis using assms True a b
      by (simp add: toFixed_def fixed1_def Let_def n_def [symmetric] padStart_def digitChar_0)
  next
    case False
    then have a: "natToString n = natToString (n div 10) @ [digitChar (n mod 10)]"
      by (subst natToString.simps) simp
    have "natToString (n div 10) \<noteq> []" by (rule natToString_nonempty)
    then have l: "length (natToString (n div 10)) \<ge> 1" by (cases "natToString (n div 10)") simp_all
    show ?thesis using assms a l
      by (simp add: toFixed_def fixed1_def Let_def n_def [symmetric] padStart_def)
  qed
qed

section \<open>Dates that can be written\<close>

lemma toISOString_Some: "\<exists>s. toISOString (Some t) = Inr s"
  by (simp add: toISOString_def Let_def split: prod.splits)

lemma getDay_Some: "getDay env d = Some k \<Longrightarrow> \<exists>t. d = Some t"
  by (cases d) (simp_all add: getDay_def)

lemma getDay_range: "getDay env d = Some k \<Longrightarrow> 0 \<le> k \<and> k \<le> 6"
  by (cases d) (auto simp: getDay_def)

text \<open>The calculator returns a record exactly when the parsed date is valid; on the invalid
  date \<^verbatim>\<open>toISOString\<close> throws.\<close>

lemma calculateDailyMetrics_returns:
  "(\<exists>r. calculateDailyMetrics env row = Inr r) \<longleftrightarrow>
   parseDate env (Prim (getCol row ''Date'')) \<noteq> None"
proof (cases "parseDate env (Prim (getCol row ''Date''))")
  case None
  then show ?thesis by (simp add: calculateDailyMetrics_def Let_def toISOString_def)
next
  case (Some t)
  obtain s where "toISOString (Some t) = Inr s" using toISOString_Some by blast
  with Some show ?thesis by (simp add: calculateDailyMetrics_def Let_def)
qed

section \<open>Doubles that need no rounding\<close>

lemma bitLength_le: "k < 2 ^ j \<Longrightarrow> bitLength k \<le> j"
proof (induction j arbitrary: k)
  case 0
  then have "k \<le> 0" by simp
  then show ?case by (subst bitLength.simps) simp
next
  case (Suc j)
  show ?case
  proof (cases "k \<le> 0")
    case True
    then show ?thesis by (subst bitLength.simps) simp
  next
    case False
    have "k div 2 < 2 ^ j" using Suc.prems by simp
    then have "bitLength (k div 2) \<le> j" by (rule Suc.IH)
    then show ?thesis using False by (subst bitLength.simps) simp
  qed
qed

lemma binExp_less:
  assumes "\<bar>x\<bar> < 2 ^ Suc j"
  shows "binExp x \<le> int j"
proof (cases "1 \<le> \<bar>x\<bar>")
  case True
  have "\<lfloor>\<bar>x\<bar>\<rfloor> < 2 ^ Suc j" using assms by (simp add: floor_less_iff)
  then have "bitLength \<lfloor>\<bar>x\<bar>\<rfloor> \<le> Suc j" by (rule bitLength_le)
  then show ?thesis using True by (simp add: binExp_def Let_def)
next
  case False
  then show ?thesis by (simp add: binExp_def Let_def)
qed

lemma roundHalfEven_of_int: "roundHalfEven (of_int m) = m"
  by (simp add: roundHalfEven_def)

text \<open>A value with at most 53 significant bits, and not too small, is a double.\<close>

lemma toDouble_dyadic:
  assumes "\<bar>k\<bar> < 2 ^ 53" "s \<le> 52"
  shows "toDouble (of_int k / 2 ^ s) = Fin (of_int k / 2 ^ s)"
proof (cases "k = 0")
  case True
  then show ?thesis by (simp add: toDouble_def)
next
  case False
  define x :: rat where "x = of_int k / 2 ^ s"
  define e where "e = max (binExp x) (- 1022)"
  have x0: "x \<noteq> 0" using False by (simp add: x_def)
  have "\<bar>x\<bar> = of_int \<bar>k\<bar> / 2 ^ s" by (simp add: x_def)
  also have "\<dots> < 2 ^ 53 / 2 ^ s"
  proof -
    have "(of_int \<bar>k\<bar> :: rat) < of_int (2 ^ 53)" using assms(1) by (simp only: of_int_less_iff)
    then show ?thesis by (simp add: divide_strict_right_mono)
  qed
  also have "\<dots> = 2 ^ Suc (52 - s)"
  proof -
    have "Suc (52 - s) = 53 - s" using assms(2) by simp
    moreover have "(2::rat) ^ (53 - s) = 2 ^ 53 / 2 ^ s"
      by (rule power_diff) (use assms(2) in simp_all)
    ultimately show ?thesis by (simp only:)
  qed
  finally have "binExp x \<le> int (52 - s)" by (rule binExp_less)
  then have e: "e \<le> 52 - int s" "- 1022 \<le> e" using assms(2) by (auto simp: e_def)
  define d where "d = nat (52 - int s - e)"
  have p: "pow2 (e - 52) = 1 / 2 ^ (s + d)"
  proof -
    have "e - 52 \<le> 0" using e by simp
    moreover have "nat (- (e - 52)) = s + d" using e by (simp add: d_def)
    ultimately show ?thesis
      by (cases "e - 52 = 0") (auto simp: pow2_def)
  qed
  have q: "x / pow2 (e - 52) = of_int (k * 2 ^ d)"
    by (simp add: p x_def power_add)
  have n: "roundHalfEven (x / pow2 (e - 52)) = k * 2 ^ d"
    unfolding q by (rule roundHalfEven_of_int)
  have r: "of_int (k * 2 ^ d) * pow2 (e - 52) = x"
    by (simp add: p x_def power_add)
  have "\<not> (1024 \<le> e \<or> (e = 1023 \<and> \<bar>k * 2 ^ d\<bar> = 2 ^ 53))" using e by simp
  then have "toDouble x = Fin x"
    using x0 n r by (simp add: toDouble_def Let_def e_def [symmetric])
  then show ?thesis by (simp add: x_def)
qed

lemma toDouble_int: "\<bar>k\<bar> < 2 ^ 53 \<Longrightarrow> toDouble (of_int k) = Fin (of_int k)"
  using toDouble_dyadic [of k 0] by simp

lemma toDouble_half: "\<bar>k\<bar> < 2 ^ 53 \<Longrightarrow> toDouble (of_int k / 2) = Fin (of_int k / 2)"
  using toDouble_dyadic [of k 1] by simp

lemma numAdd_half:
  assumes "\<bar>k\<bar> < 2 ^ 53" "\<bar>j\<bar> < 2 ^ 53" "\<bar>k + j\<bar> < 2 ^ 53"
  shows "numAdd (Fin (of_int k / 2)) (Fin (of_int j / 2)) = Fin (of_int (k + j) / 2)"
proof -
  have c1: "canon (Fin (of_int k / 2)) = Fin (of_int k / 2)"
    using toDouble_half [OF assms(1)] by (simp add: canon_def)
  have c2: "canon (Fin (of_int j / 2)) = Fin (of_int j / 2)"
    using toDouble_half [OF assms(2)] by (simp add: canon_def)
  have eq: "(of_int k / 2 + of_int j / 2 :: rat) = of_int (k + j) / 2"
    by (simp add: add_divide_distrib)
  have "numAdd (Fin (of_int k / 2)) (Fin (of_int j / 2)) = toDouble (of_int k / 2 + of_int j / 2)"
    by (simp only: numAdd_def c1 c2 addD.simps)
  also have "\<dots> = toDouble (of_int (k + j) / 2)" by (simp only: eq)
  also have "\<dots> = Fin (of_int (k + j) / 2)" by (rule toDouble_half [OF assms(3)])
  finally show ?thesis .
qed

lemma numSub_int:
  assumes "\<bar>a\<bar> < 2 ^ 53" "\<bar>b\<bar> < 2 ^ 53" "\<bar>a - b\<bar> < 2 ^ 53"
  shows "numSub (Fin (of_int a)) (Fin (of_int b)) = Fin (of_int (a - b))"
proof -
  have "toDouble (of_int a + - of_int b) = toDouble (of_int (a - b))" by simp
  then show ?thesis
    using assms by (simp add: numSub_def canon_def negD_def toDouble_int del: of_int_diff)
qed

lemma numMul_int:
  assumes "\<bar>a\<bar> < 2 ^ 53" "\<bar>b\<bar> < 2 ^ 53" "\<bar>a * b\<bar> < 2 ^ 53"
  shows "numMul (Fin (of_int a)) (Fin (of_int b)) = Fin (of_int (a * b))"
proof -
  have "toDouble (of_int a * of_int b) = toDouble (of_int (a * b))" by simp
  then show ?thesis
    using assms by (simp add: numMul_def canon_def toDouble_int del: of_int_mult)
qed

lemma MathRound_int:
  assumes "\<bar>a\<bar> < 2 ^ 53"
  shows "MathRound (Fin (of_int a)) = Fin (of_int a)"
proof -
  have "\<lfloor>(of_int a :: rat) + 1 / 2\<rfloor> = a" by (rule floor_unique) simp_all
  then show ?thesis using assms by (simp add: MathRound_def canon_def toDouble_int)
qed

section \<open>The daily record\<close>

text \<open>
  Claim C1. Every record that the daily metrics calculator produces satisfies: the leave
  flag is set if and only if the day is not a Sunday and the check-in or the check-out
  fails to parse; and the worked hours are 0 whenever the leave flag is set or the day is a
  Sunday, also when both punches are present on the Sunday.
\<close>

theorem daily_record_invariant:
  assumes "calculateDailyMetrics env row = Inr r"
  shows "(isLeave r \<longleftrightarrow> dayName r \<noteq> ''Sunday'' \<and>
            (parseTime env (getCol row ''In-Time'') = None \<or>
             parseTime env (getCol row ''Out-Time'') = None)) \<and>
         (isLeave r \<or> dayName r = ''Sunday'' \<longrightarrow> workedHours r = 0)"
  using assms
  by (auto simp: calculateDailyMetrics_def Let_def split: sum.splits option.splits if_splits)

theorem daily_record_invariant_witness:
  "calculateDailyMetrics (utcEnv 0) sundayRow =
     Inr \<lparr>date = ''2023-10-01T00:00:00.000Z'', dayName = ''Sunday'', inTime = ''09:00'',
          outTime = ''17:30'', expectedHours = 0, workedHours = 0, isLeave = False\<rparr> \<and>
   parseTime (utcEnv 0) (getCol sundayRow ''In-Time'') \<noteq> None \<and>
   parseTime (utcEnv 0) (getCol sundayRow ''Out-Time'') \<noteq> None"
proof -
  have c: "calculateDailyMetrics (utcEnv 0) sundayRow =
     Inr \<lparr>date = ''2023-10-01T00:00:00.000Z'', dayName = ''Sunday'', inTime = ''09:00'',
          outTime = ''17:30'', expectedHours = 0, workedHours = 0, isLeave = False\<rparr>"
    by code_simp
  have i: "parseTime (utcEnv 0) (getCol sundayRow ''In-Time'') \<noteq> None" by code_simp
  have out: "parseTime (utcEnv 0) (getCol sundayRow ''Out-Time'') \<noteq> None" by code_simp
  show ?thesis using c i out daily_record_invariant [OF c] by simp
qed



section \<open>The batch totals\<close>

lemma foldl_accumulate:
  "foldl accumulate a rs =
     a \<lparr> records := records a @ rs,
         totalExpected := foldl numAdd (totalExpected a) (map (\<lambda>r. Fin (expectedHours r)) rs),
         totalWorked := foldl numAdd (totalWorked a) (map (\<lambda>r. Fin (workedHours r)) rs),
         leavesTaken := leavesTaken a + length (filter isLeave rs) \<rparr>"
  by (induction rs arbitrary: a) (simp_all add: accumulate_def)

text \<open>The expected hours are halves of small integers, so their sum is exact.\<close>

lemma expected_half:
  assumes "e \<in> {0, 4, 17 / 2 :: rat}"
  shows "\<exists>j. e = of_int j / 2 \<and> 0 \<le> j \<and> j \<le> 17"
proof -
  from assms consider "e = 0" | "e = 4" | "e = 17 / 2" by auto
  then show ?thesis
  proof cases
    case 1
    then show ?thesis by (intro exI [of _ 0]) simp
  next
    case 2
    then show ?thesis by (intro exI [of _ 8]) simp
  next
    case 3
    then show ?thesis by (intro exI [of _ 17]) simp
  qed
qed

lemma expected_sum_exact:
  assumes "\<forall>r\<in>set rs. expectedHours r \<in> {0, 4, 17 / 2}"
      and "0 \<le> k"
      and "k + 17 * int (length rs) < 2 ^ 53"
  shows "foldl numAdd (Fin (of_int k / 2)) (map (\<lambda>r. Fin (expectedHours r)) rs) =
           Fin (of_int k / 2 + sum_list (map expectedHours rs)) \<and>
         (\<exists>K. of_int k / 2 + sum_list (map expectedHours rs) = of_int K / 2 \<and>
              0 \<le> K \<and> K < 2 ^ 53)"
  using assms
proof (induction rs arbitrary: k)
  case Nil
  then show ?case by (auto intro: exI [of _ k])
next
  case (Cons r rs)
  from Cons.prems(1) obtain j where
    j: "expectedHours r = of_int j / 2" "0 \<le> j" "j \<le> 17"
    using expected_half [of "expectedHours r"] by auto
  have b: "\<bar>k\<bar> < 2 ^ 53" "\<bar>j\<bar> < 2 ^ 53" "\<bar>k + j\<bar> < 2 ^ 53"
    using Cons.prems(2,3) j(2,3) by auto
  define a :: rat where "a = of_int k / 2"
  define c :: rat where "c = of_int (k + j) / 2"
  define S where "S = sum_list (map expectedHours rs)"
  have step: "numAdd (Fin a) (Fin (expectedHours r)) = Fin c"
    unfolding j(1) a_def c_def by (rule numAdd_half [OF b])
  have e: "c = a + expectedHours r"
    by (simp add: j(1) a_def c_def add_divide_distrib)
  have "\<forall>r\<in>set rs. expectedHours r \<in> {0, 4, 17 / 2}" using Cons.prems(1) by simp
  moreover have "0 \<le> k + j" using Cons.prems(2) j(2) by simp
  moreover have "k + j + 17 * int (length rs) < 2 ^ 53" using Cons.prems(3) j(3) by simp
  ultimately have
    "foldl numAdd (Fin (of_int (k + j) / 2)) (map (\<lambda>r. Fin (expectedHours r)) rs) =
       Fin (of_int (k + j) / 2 + sum_list (map expectedHours rs)) \<and>
     (\<exists>K. of_int (k + j) / 2 + sum_list (map expectedHours rs) = of_int K / 2 \<and>
          0 \<le> K \<and> K < 2 ^ 53)"
    by (rule Cons.IH)
  then obtain K where
    ih: "foldl numAdd (Fin c) (map (\<lambda>r. Fin (expectedHours r)) rs) = Fin (c + S)"
    and K: "c + S = of_int K / 2" "0 \<le> K" "K < 2 ^ 53"
    unfolding c_def S_def by blast
  have total: "a + sum_list (map expectedHours (r # rs)) = c + S"
    by (simp only: e S_def list.map sum_list.Cons add.assoc)
  have "foldl numAdd (Fin a) (map (\<lambda>r. Fin (expectedHours r)) (r # rs)) =
          foldl numAdd (Fin c) (map (\<lambda>r. Fin (expectedHours r)) rs)"
    by (simp only: list.map foldl_Cons step)
  also have "\<dots> = Fin (a + sum_list (map expectedHours (r # rs)))"
    by (simp only: ih total)
  finally have g1: "foldl numAdd (Fin a) (map (\<lambda>r. Fin (expectedHours r)) (r # rs)) =
          Fin (a + sum_list (map expectedHours (r # rs)))" .
  have g2: "\<exists>K. a + sum_list (map expectedHours (r # rs)) = of_int K / 2 \<and> 0 \<le> K \<and> K < 2 ^ 53"
    using K unfolding total by blast
  show ?case using g1 g2 unfolding a_def by blast
qed

lemma aggregate_records:
  assumes "\<forall>r\<in>set rs. expectedHours r \<in> {0, 4, 17 / 2}"
      and "length rs < 2 ^ 48"
  shows "sTotalExpected (aggregate env rs) = Fin (sum_list (map expectedHours rs)) \<and>
         sTotalWorked (aggregate env rs) =
           foldl numAdd (Fin 0) (map (\<lambda>r. Fin (workedHours r)) rs) \<and>
         sLeavesTaken (aggregate env rs) = length (filter isLeave rs) \<and>
         productivity (aggregate env rs) =
           (if sum_list (map expectedHours rs) = 0 then ''0.0''
            else toFixedNumber env 1
                   (numMul
                      (numDiv (foldl numAdd (Fin 0) (map (\<lambda>r. Fin (workedHours r)) rs))
                              (Fin (sum_list (map expectedHours rs))))
                      (Fin 100)))"
proof -
  define E where "E = sum_list (map expectedHours rs)"
  have len: "0 + 17 * int (length rs) < 2 ^ 53"
  proof -
    have "int (length rs) < 2 ^ 48" using assms(2) by (metis of_nat_less_numeral_power_cancel_iff)
    then show ?thesis by simp
  qed
  have z: "(0::int) \<le> 0" by simp
  from expected_sum_exact [OF assms(1) z len] obtain K where
    tot: "foldl numAdd (Fin 0) (map (\<lambda>r. Fin (expectedHours r)) rs) = Fin E"
    and K: "E = of_int K / 2" "0 \<le> K" "K < 2 ^ 53"
    by (auto simp: E_def)
  have c: "canon (Fin E) = Fin E"
    unfolding K(1) canon_def using K(2,3) by (simp add: toDouble_half)
  have c0: "canon (Fin 0) = Fin 0" by (simp add: canon_def toDouble_def)
  have nn: "0 \<le> E" using K(1,2) by simp
  have gt: "numGt (Fin E) (Fin 0) = (E \<noteq> 0)"
    using nn by (auto simp: numGt_def c c0)
  show ?thesis
    using tot gt
    by (simp add: aggregate_def summarize_def foldl_accumulate initAcc_def E_def [symmetric])
qed


subsection \<open>The handler\<close>

text \<open>What the handler returns is the aggregate of the records of the rows, whose expected
  hours are 0, 4 or 8.5 and whose worked hours are not negative, under the name read from
  the first row.\<close>

lemma calculateDailyMetrics_hours:
  assumes "calculateDailyMetrics env row = Inr r"
  shows "expectedHours r \<in> {0, 4, 17 / 2} \<and> 0 \<le> workedHours r"
proof -
  have n: "0 \<le> Number (toFixed 2 ((of_int a - of_int b) / 60))" if "b < a" for a b :: int
  proof -
    have nn: "(0::rat) \<le> (of_int a - of_int b) / 60" using that by simp
    show ?thesis using Number_toFixed_2 [OF nn] round2_nonneg [OF nn] by simp
  qed
  show ?thesis
    using assms n
    by (auto simp: calculateDailyMetrics_def Let_def SUNDAY_HOURS_def SATURDAY_HOURS_def
        WEEKDAY_HOURS_def split: sum.splits option.splits if_splits)
qed

lemma forEachRow_foldl:
  assumes "forEachRow env index rows a = Inr a'"
  shows "\<exists>rs. a' = foldl accumulate (a\<lparr>employeeName := employeeName a'\<rparr>) rs \<and>
              map Inr rs = map (calculateDailyMetrics env) rows"
  using assms
proof (induction rows arbitrary: index a)
  case Nil
  then show ?case by (intro exI [of _ "[]"]) auto
next
  case (Cons row rows)
  define a1 where "a1 = (if index = 0 \<and> \<not> falsy (getCol row ''Employee Name'')
                then a \<lparr> employeeName := String env (getCol row ''Employee Name'') \<rparr> else a)"
  from Cons.prems obtain metrics where
    m: "calculateDailyMetrics env row = Inr metrics" and
    r: "forEachRow env (index + 1) rows (accumulate a1 metrics) = Inr a'"
    by (auto simp: a1_def Let_def split: sum.splits)
  from Cons.IH [OF r] obtain rs where
    rs: "a' = foldl accumulate ((accumulate a1 metrics)\<lparr>employeeName := employeeName a'\<rparr>) rs"
        "map Inr rs = map (calculateDailyMetrics env) rows"
    by blast
  have e: "(accumulate a1 metrics)\<lparr>employeeName := employeeName a'\<rparr> =
           accumulate (a\<lparr>employeeName := employeeName a'\<rparr>) metrics"
    by (simp add: accumulate_def a1_def)
  show ?case
    using rs m unfolding e by (intro exI [of _ "metrics # rs"]) simp
qed

lemma POST_aggregate:
  assumes "POST env jsonData = Inr s"
  shows "s = (aggregate env (sRecords s))\<lparr>sEmployeeName := sEmployeeName s\<rparr> \<and>
         map Inr (sRecords s) = map (calculateDailyMetrics env) jsonData \<and>
         list_all (\<lambda>r. expectedHours r \<in> {0, 4, 17 / 2} \<and> 0 \<le> workedHours r) (sRecords s)"
proof -
  from assms obtain a where a: "forEachRow env 0 jsonData initAcc = Inr a" and s: "s = summarize env a"
    by (auto simp: POST_def split: if_splits sum.splits)
  from forEachRow_foldl [OF a] obtain rs where
    rs: "a = foldl accumulate (initAcc\<lparr>employeeName := employeeName a\<rparr>) rs"
        "map Inr rs = map (calculateDailyMetrics env) jsonData"
    by blast
  have recs: "records a = rs"
    by (subst rs(1)) (simp add: foldl_accumulate initAcc_def)
  have 1: "s = (aggregate env (sRecords s))\<lparr>sEmployeeName := sEmployeeName s\<rparr>"
    unfolding s by (subst (1 2 3) rs(1))
      (simp add: summarize_def aggregate_def foldl_accumulate initAcc_def)
  have 2: "map Inr (sRecords s) = map (calculateDailyMetrics env) jsonData"
    using rs(2) recs by (simp add: s summarize_def)
  have "expectedHours r \<in> {0, 4, 17 / 2} \<and> 0 \<le> workedHours r" if "r \<in> set rs" for r
  proof -
    from that have "Inr r \<in> set (map (calculateDailyMetrics env) jsonData)"
      using rs(2) by (metis imageI set_map)
    then obtain row where "calculateDailyMetrics env row = Inr r" by auto
    then show ?thesis by (rule calculateDailyMetrics_hours)
  qed
  then have 3: "list_all (\<lambda>r. expectedHours r \<in> {0, 4, 17 / 2} \<and> 0 \<le> workedHours r) (sRecords s)"
    using recs by (simp add: s summarize_def list_all_iff)
  show ?thesis using 1 2 3 by blast
qed

text \<open>
  Claim C3, as amended. For every sequence of fewer than \<open>2^48\<close> daily records whose
  expected hours are 0, 4 or 8.5, the batch loop returns as total expected hours the sum of
  the expected hours, as total worked hours the sum of the worked hours added as doubles
  from left to right, as leaves taken the number of records flagged as leave, and as
  productivity the double quotient of the totals times 100 in double arithmetic, written by
  \<^verbatim>\<open>toFixed(1)\<close>, or \<open>0.0\<close> when the total expected hours are 0, which includes the empty
  sequence. What the handler returns for a sheet is this aggregate of the records of its
  rows, in their order, and these records have expected hours 0, 4 or 8.5. The three
  example records give 12.5, 10.5 and \<open>84.0\<close>.
\<close>

theorem aggregate_totals:
  assumes "\<forall>r\<in>set rs. expectedHours r \<in> {0, 4, 17 / 2}"
      and "length rs < 2 ^ 48"
  shows "sTotalExpected (aggregate env rs) = Fin (sum_list (map expectedHours rs)) \<and>
         sTotalWorked (aggregate env rs) =
           foldl numAdd (Fin 0) (map (\<lambda>r. Fin (workedHours r)) rs) \<and>
         sLeavesTaken (aggregate env rs) = length (filter isLeave rs) \<and>
         productivity (aggregate env rs) =
           (if sum_list (map expectedHours rs) = 0 then ''0.0''
            else toFixedNumber env 1
                   (numMul
                      (numDiv (foldl numAdd (Fin 0) (map (\<lambda>r. Fin (workedHours r)) rs))
                              (Fin (sum_list (map expectedHours rs))))
                      (Fin 100))) \<and>
         (\<forall>jsonData s. POST env jsonData = Inr s \<longrightarrow>
            s = (aggregate env (sRecords s))\<lparr>sEmployeeName := sEmployeeName s\<rparr> \<and>
            map Inr (sRecords s) = map (calculateDailyMetrics env) jsonData \<and>
            (\<forall>r\<in>set (sRecords s). expectedHours r \<in> {0, 4, 17 / 2}))"
proof -
  have "s = (aggregate env (sRecords s))\<lparr>sEmployeeName := sEmployeeName s\<rparr> \<and>
        map Inr (sRecords s) = map (calculateDailyMetrics env) jsonData \<and>
        (\<forall>r\<in>set (sRecords s). expectedHours r \<in> {0, 4, 17 / 2})"
    if "POST env jsonData = Inr s" for jsonData s
    using POST_aggregate [OF that] by (simp add: list_all_iff)
  then show ?thesis using aggregate_records [OF assms, of env] by blast
qed

theorem aggregate_totals_witness:
  "list_all (\<lambda>r. expectedHours r \<in> {0, 4, 17 / 2}) exampleRecords \<and>
   sTotalExpected (aggregate (utcEnv 0) exampleRecords) = Fin (25 / 2) \<and>
   sTotalWorked (aggregate (utcEnv 0) exampleRecords) = Fin (21 / 2) \<and>
   sLeavesTaken (aggregate (utcEnv 0) exampleRecords) = 0 \<and>
   productivity (aggregate (utcEnv 0) exampleRecords) = ''84.0'' \<and>
   productivity (aggregate (utcEnv 0) []) = ''0.0'' \<and>
   POST (utcEnv 0) exampleRows =
     Inr \<lparr>sEmployeeName = ''Unknown Employee'', sTotalExpected = Fin (25 / 2),
           sTotalWorked = Fin (21 / 2), sLeavesTaken = 0, productivity = ''84.0'',
           sRecords = exampleRecords\<rparr>"
proof -
  have h: "\<forall>r\<in>set exampleRecords. expectedHours r \<in> {0, 4, 17 / 2}"
    by (simp add: exampleRecords_def)
  have l: "length exampleRecords < 2 ^ 48" by (simp add: exampleRecords_def)
  have h0: "\<forall>r\<in>set []. expectedHours r \<in> {0, 4, 17 / 2 :: rat}" by simp
  have l0: "length ([] :: DailyRecord list) < 2 ^ 48" by simp
  have w: "sTotalWorked (aggregate (utcEnv 0) exampleRecords) = Fin (21 / 2)" by code_simp
  have p: "productivity (aggregate (utcEnv 0) exampleRecords) = ''84.0''" by code_simp
  have e: "sum_list (map expectedHours exampleRecords) = 25 / 2" by code_simp
  have n: "length (filter isLeave exampleRecords) = 0" by code_simp
  have post: "POST (utcEnv 0) exampleRows =
     Inr \<lparr>sEmployeeName = ''Unknown Employee'', sTotalExpected = Fin (25 / 2),
           sTotalWorked = Fin (21 / 2), sLeavesTaken = 0, productivity = ''84.0'',
           sRecords = exampleRecords\<rparr>" by code_simp
  note t = aggregate_totals [OF h l, of "utcEnv 0", unfolded e n]
  note t0 = aggregate_totals [OF h0 l0, of "utcEnv 0"]
  have te: "sTotalExpected (aggregate (utcEnv 0) exampleRecords) = Fin (25 / 2)"
    using t by blast
  have tl: "sLeavesTaken (aggregate (utcEnv 0) exampleRecords) = 0"
    using t by blast
  have p0: "productivity (aggregate (utcEnv 0) []) = ''0.0''"
    using t0 by simp
  have hl: "list_all (\<lambda>r. expectedHours r \<in> {0, 4, 17 / 2}) exampleRecords"
    using h by (simp only: list_all_iff)
  show ?thesis using hl te w tl p p0 post by blast
qed

text \<open>One Saturday from 09:00 to 10:09: 1.15 of 4 hours are 28.75 percent, which rounds to
  \<open>28.8\<close>; the doubles give 28.749999999999996 and the handler writes \<open>28.7\<close>.\<close>

theorem aggregate_rounding_counterexample:
  "calculateDailyMetrics (utcEnv 0) saturdayRow = Inr saturdayRecord \<and>
   productivity (aggregate (utcEnv 0) [saturdayRecord]) = ''28.7'' \<and>
   fixed1 (workedHours saturdayRecord / expectedHours saturdayRecord * 100) = ''28.8''"
proof -
  have a: "calculateDailyMetrics (utcEnv 0) saturdayRow = Inr saturdayRecord" by code_simp
  have b: "productivity (aggregate (utcEnv 0) [saturdayRecord]) = ''28.7''" by code_simp
  have c: "fixed1 (workedHours saturdayRecord / expectedHours saturdayRecord * 100) = ''28.8''"
    by code_simp
  show ?thesis using a b c by simp
qed

section \<open>When no time is parsed\<close>

text \<open>
  Claim C5. On every cell (empty, null, text or number) the time parser returns without
  raising, and it returns absent exactly when the cell is falsy, or its text trims to the
  empty string, or splitting at the separator (the colon if the text has one, else the
  period) gives fewer than two parts, or one of the first two parts does not parse as a
  decimal integer; in every other case it returns a parsed time.
\<close>

theorem parseTime_absent_iff:
  "parseTime env v = None \<longleftrightarrow>
     (let timeStr = trim (String env v);
          separator = (if includesChar timeStr CHR '':'' then CHR '':'' else CHR ''.'');
          parts = split separator timeStr
      in falsy v \<or> timeStr = [] \<or> length parts < 2 \<or>
         parseInt (parts ! 0) = None \<or> parseInt (parts ! 1) = None)"
  by (auto simp: parseTime_def Let_def split: option.splits)

section \<open>Falsy punches\<close>

lemma parseTime_falsy: "falsy c \<Longrightarrow> parseTime env c = None"
  by (simp add: parseTime_def)

lemma getCol_upd_same: "getCol (row(k \<mapsto> c)) k = c"
  by (simp add: getCol_def)

lemma getCol_del_same: "getCol (row(k := None)) k = Undefined"
  by (simp add: getCol_def)

lemma getCol_upd_other: "k' \<noteq> k \<Longrightarrow> getCol (row(k := v)) k' = getCol row k'"
  by (simp add: getCol_def)

text \<open>
  Claim C10. When the In-Time or the Out-Time cell of a row on a day other than Sunday holds
  the number 0 or the empty string, the time parser returns absent for it, because the
  value is falsy, and the calculator marks the day as leave with 0 worked hours. Such a
  cell cannot be told from a missing one: the calculator returns the same for the row with
  the cell removed.
\<close>

theorem zero_or_empty_punch_is_leave:
  assumes "c = Num (Fin 0) \<or> c = Str []"
      and "getCol row ''In-Time'' = c \<or> getCol row ''Out-Time'' = c"
      and "getDay env (parseDate env (Prim (getCol row ''Date''))) = Some k"
      and "k \<noteq> 0"
  shows "falsy c \<and> parseTime env c = None \<and>
         (\<exists>r. calculateDailyMetrics env row = Inr r \<and> isLeave r \<and> workedHours r = 0) \<and>
         calculateDailyMetrics env (row(''In-Time'' \<mapsto> c)) =
           calculateDailyMetrics env (row(''In-Time'' := None)) \<and>
         calculateDailyMetrics env (row(''Out-Time'' \<mapsto> c)) =
           calculateDailyMetrics env (row(''Out-Time'' := None))"
proof -
  have f: "falsy c" using assms(1) by auto
  have p: "parseTime env c = None" using f by (rule parseTime_falsy)
  have u: "parseTime env Undefined = None" by (simp add: parseTime_falsy)
  obtain t where t: "parseDate env (Prim (getCol row ''Date'')) = Some t"
    using getDay_Some [OF assms(3)] by blast
  obtain s where s: "toISOString (Some t) = Inr s"
    using toISOString_Some by blast
  have none: "parseTime env (getCol row ''In-Time'') = None \<or>
              parseTime env (getCol row ''Out-Time'') = None"
    using assms(2) p by auto
  have r: "\<exists>r. calculateDailyMetrics env row = Inr r \<and> isLeave r \<and> workedHours r = 0"
    using none assms(3,4) t s
    by (auto simp: calculateDailyMetrics_def Let_def split: option.splits)
  have i: "calculateDailyMetrics env (row(''In-Time'' \<mapsto> c)) =
           calculateDailyMetrics env (row(''In-Time'' := None))"
    by (simp add: calculateDailyMetrics_def getCol_def p u)
  have out: "calculateDailyMetrics env (row(''Out-Time'' \<mapsto> c)) =
           calculateDailyMetrics env (row(''Out-Time'' := None))"
    by (simp add: calculateDailyMetrics_def getCol_def p u)
  show ?thesis using f p r i out by blast
qed

theorem zero_or_empty_punch_is_leave_witness:
  "getCol midnightRow ''In-Time'' = Num (Fin 0) \<and>
   getDay (utcEnv 0) (parseDate (utcEnv 0) (Prim (getCol midnightRow ''Date''))) = Some 3 \<and>
   parseTime (utcEnv 0) (Num (Fin 0)) = None \<and>
   (\<exists>r. calculateDailyMetrics (utcEnv 0) midnightRow = Inr r \<and> isLeave r \<and> workedHours r = 0)"
proof -
  have c: "Num (Fin 0) = Num (Fin 0) \<or> Num (Fin 0) = Str []" by simp
  have g: "getCol midnightRow ''In-Time'' = Num (Fin 0)" by code_simp
  have d: "getDay (utcEnv 0) (parseDate (utcEnv 0) (Prim (getCol midnightRow ''Date''))) = Some 3"
    by code_simp
  have k: "(3::int) \<noteq> 0" by simp
  show ?thesis
    using g d zero_or_empty_punch_is_leave [OF c disjI1 [OF g] d k] by simp
qed

section \<open>The sign of the minutes\<close>

lemma set_trim: "set (trim s) \<subseteq> set s"
proof -
  have "set (trim s) \<subseteq> set (dropWhile isWhiteSpace s)"
    unfolding trim_def using set_dropWhileD [of _ isWhiteSpace "rev (dropWhile isWhiteSpace s)"]
    by auto
  also have "\<dots> \<subseteq> set s" using set_dropWhileD by fastforce
  finally show ?thesis .
qed

lemma set_split: "p \<in> set (split sep s) \<Longrightarrow> set p \<subseteq> set s"
proof (induction sep s rule: split.induct)
  case (1 sep s)
  show ?case
  proof (cases "dropWhile (\<lambda>c. c \<noteq> sep) s")
    case Nil
    with 1(2) show ?thesis by (subst (asm) split.simps) simp
  next
    case (Cons x rest)
    have sub: "set rest \<subseteq> set s"
      using set_dropWhileD [of _ "\<lambda>c. c \<noteq> sep" s] Cons by auto
    from 1(2) Cons have "p = takeWhile (\<lambda>c. c \<noteq> sep) s \<or> p \<in> set (split sep rest)"
      by (subst (asm) split.simps) simp
    then show ?thesis
    proof
      assume "p = takeWhile (\<lambda>c. c \<noteq> sep) s"
      then show ?thesis using set_takeWhileD by fastforce
    next
      assume "p \<in> set (split sep rest)"
      then have "set p \<subseteq> set rest" using 1(1) Cons by simp
      then show ?thesis using sub by blast
    qed
  qed
qed

lemma parseInt_nonneg:
  assumes "parseInt s = Some n" "CHR ''-'' \<notin> set s"
  shows "0 \<le> n"
proof -
  have "set (trimStart s) \<subseteq> set s"
    unfolding trimStart_def using set_dropWhileD by fastforce
  then have "trimStart s = [] \<or> hd (trimStart s) \<noteq> CHR ''-''"
    using assms(2) by (cases "trimStart s") auto
  then show ?thesis
    using assms(1) by (auto simp: parseInt_def Let_def split: if_splits)
qed

text \<open>
  Claim C9, as amended. Whenever the time parser succeeds on a cell whose text has no
  minus sign, the minutes it returns are an integer that is not negative. (With a minus
  sign in front of the hour or the minute the parser succeeds with negative minutes:
  there is no bound check.)
\<close>

theorem parseTime_mins_nonneg:
  assumes "parseTime env v = Some p" and "CHR ''-'' \<notin> set (String env v)"
  shows "0 \<le> mins p"
proof -
  define timeStr where "timeStr = trim (String env v)"
  define sep where "sep = (if includesChar timeStr CHR '':'' then CHR '':'' else CHR ''.'')"
  define parts where "parts = split sep timeStr"
  from assms(1) obtain h m where
    len: "2 \<le> length parts" and h: "parseInt (parts ! 0) = Some h"
    and m: "parseInt (parts ! 1) = Some m" and p: "mins p = h * 60 + m"
    by (auto simp: parseTime_def Let_def timeStr_def parts_def sep_def
        split: if_splits option.splits)
  have no: "CHR ''-'' \<notin> set timeStr"
    using assms(2) set_trim unfolding timeStr_def by blast
  have l0: "0 < length parts" and l1: "1 < length parts" using len by linarith+
  have "set (parts ! 0) \<subseteq> set timeStr"
    using set_split [of "parts ! 0" sep timeStr] nth_mem [OF l0] unfolding parts_def by blast
  moreover have "set (parts ! 1) \<subseteq> set timeStr"
    using set_split [of "parts ! 1" sep timeStr] nth_mem [OF l1] unfolding parts_def by blast
  ultimately have "CHR ''-'' \<notin> set (parts ! 0)" "CHR ''-'' \<notin> set (parts ! 1)"
    using no by blast+
  then have "0 \<le> h" "0 \<le> m" using h m parseInt_nonneg by blast+
  then show ?thesis using p by simp
qed

theorem parseTime_mins_nonneg_witness:
  "parseTime (utcEnv 0) (Str ''9:5'') = Some \<lparr>str = ''09:05'', mins = 545\<rparr> \<and>
   CHR ''-'' \<notin> set (String (utcEnv 0) (Str ''9:5'')) \<and>
   0 \<le> mins \<lparr>str = ''09:05'', mins = 545\<rparr>"
proof -
  have a: "parseTime (utcEnv 0) (Str ''9:5'') = Some \<lparr>str = ''09:05'', mins = 545\<rparr>"
    by code_simp
  have b: "CHR ''-'' \<notin> set (String (utcEnv 0) (Str ''9:5''))"
    by code_simp
  show ?thesis using a b parseTime_mins_nonneg [OF a b] by simp
qed

text \<open>The text \<^verbatim>\<open>-5:00\<close> parses, to minus 300 minutes.\<close>

theorem parseTime_negative_counterexample:
  "parseTime (utcEnv 0) (Str ''-5:00'') = Some \<lparr>str = ''-5:00'', mins = - 300\<rparr> \<and>
   \<not> 0 \<le> mins \<lparr>str = ''-5:00'', mins = - 300\<rparr>"
proof -
  have a: "parseTime (utcEnv 0) (Str ''-5:00'') = Some \<lparr>str = ''-5:00'', mins = - 300\<rparr>"
    by code_simp
  show ?thesis using a by simp
qed

section \<open>The parsed value and its display\<close>

lemma padStart2_small:
  assumes "n < 100"
  shows "padStart 2 CHR ''0'' (natToString n) = [digitChar (n div 10), digitChar (n mod 10)]"
proof (cases "n < 10")
  case True
  then have "natToString n = [digitChar n]" by (subst natToString.simps) simp
  then show ?thesis using True by (simp add: padStart_def digitChar_0)
next
  case False
  then have a: "natToString n = natToString (n div 10) @ [digitChar (n mod 10)]"
    by (subst natToString.simps) simp
  have "n div 10 < 10" using assms by simp
  then have "natToString (n div 10) = [digitChar (n div 10)]" by (subst natToString.simps) simp
  then show ?thesis using a by (simp add: padStart_def)
qed

lemma intToString_nonneg: "0 \<le> i \<Longrightarrow> intToString i = natToString (nat i)"
  by (simp add: intToString_def)

lemma pad2_two_digits:
  assumes "0 \<le> h" "h \<le> 99"
  shows "padStart 2 CHR ''0'' (intToString h) =
           [digitChar (nat h div 10), digitChar (nat h mod 10)]"
  using assms padStart2_small [of "nat h"] by (simp add: intToString_nonneg)

lemma decValue_two: "a < 10 \<Longrightarrow> b < 10 \<Longrightarrow> decValue [digitChar a, digitChar b] = 10 * a + b"
  by (simp add: decValue_def digitVal_digitChar)

lemma split_not_Nil_single: "split sep [] = [[]]"
  by (subst split.simps) simp

text \<open>
  Claim C4, as amended. For every text whose trimmed form splits, at the colon if it has
  one and else at the period, into at least two parts of which the first two parse as
  decimal integers \<open>h\<close> and \<open>m\<close> of magnitude at most \<open>10^14\<close> (where the doubles of the
  code are exact), the time parser returns \<open>60 * h + m\<close> minutes and as
  display the decimal \<open>h\<close> and the decimal \<open>m\<close>, each filled from the left with zeros to
  at least two characters, with a colon between them. The display is of the two-digit form
  \<^verbatim>\<open>HH:MM\<close>, and reads back as \<open>h\<close> and \<open>m\<close>, when both lie between 0 and 99. The text
  \<^verbatim>\<open>9:5\<close> gives \<^verbatim>\<open>09:05\<close> and 545.
\<close>

theorem parseTime_value_and_display:
  assumes "split (if includesChar (trim s) CHR '':'' then CHR '':'' else CHR ''.'') (trim s)
             = hp # mp # rest"
      and "parseInt hp = Some h"
      and "parseInt mp = Some m"
      and "\<bar>h\<bar> \<le> 10 ^ 14"
      and "\<bar>m\<bar> \<le> 10 ^ 14"
  shows "\<exists>p. parseTime env (Str s) = Some p \<and>
           mins p = 60 * h + m \<and>
           str p = padStart 2 CHR ''0'' (intToString h) @ '':'' @
                   padStart 2 CHR ''0'' (intToString m) \<and>
           (0 \<le> h \<and> h \<le> 99 \<and> 0 \<le> m \<and> m \<le> 99 \<longrightarrow>
              isHHMM (str p) \<and> int (decValue (take 2 (str p))) = h \<and>
              int (decValue (drop 3 (str p))) = m)"
proof -
  have t: "trim s \<noteq> []"
  proof
    assume "trim s = []"
    then show False using assms(1) by (simp add: split_not_Nil_single)
  qed
  then have s: "s \<noteq> []" by (auto simp: trim_def)
  define p where "p = \<lparr> str = padStart 2 CHR ''0'' (intToString h) @ '':'' @
                              padStart 2 CHR ''0'' (intToString m),
                        mins = h * 60 + m \<rparr>"
  have pt: "parseTime env (Str s) = Some p"
    using assms(1-3) t s by (simp add: parseTime_def String_def Let_def p_def)
  have shape: "isHHMM (str p) \<and> int (decValue (take 2 (str p))) = h \<and>
               int (decValue (drop 3 (str p))) = m"
    if r: "0 \<le> h \<and> h \<le> 99 \<and> 0 \<le> m \<and> m \<le> 99"
  proof -
    have hd: "nat h div 10 < 10" "nat h mod 10 < 10" "nat m div 10 < 10" "nat m mod 10 < 10"
      using r by auto
    have sp: "str p = [digitChar (nat h div 10), digitChar (nat h mod 10), CHR '':'',
                       digitChar (nat m div 10), digitChar (nat m mod 10)]"
      using r by (simp add: p_def pad2_two_digits)
    show ?thesis
      unfolding sp using hd r
      by (simp add: isHHMM_def isDigit_digitChar decValue_two)
  qed
  show ?thesis
    using pt shape by (intro exI [of _ p]) (simp add: p_def)
qed

theorem parseTime_value_and_display_witness:
  "split (if includesChar (trim ''9:5'') CHR '':'' then CHR '':'' else CHR ''.'') (trim ''9:5'')
     = [''9'', ''5''] \<and>
   parseInt ''9'' = Some 9 \<and> parseInt ''5'' = Some 5 \<and>
   parseTime (utcEnv 0) (Str ''9:5'') = Some \<lparr>str = ''09:05'', mins = 545\<rparr> \<and>
   isHHMM ''09:05''"
proof -
  have a: "split (if includesChar (trim ''9:5'') CHR '':'' then CHR '':'' else CHR ''.'') (trim ''9:5'')
     = ''9'' # ''5'' # []" by code_simp
  have h: "parseInt ''9'' = Some 9" by code_simp
  have m: "parseInt ''5'' = Some 5" by code_simp
  have p: "parseTime (utcEnv 0) (Str ''9:5'') = Some \<lparr>str = ''09:05'', mins = 545\<rparr>"
    by code_simp
  have bh: "\<bar>9 :: int\<bar> \<le> 10 ^ 14" and bm: "\<bar>5 :: int\<bar> \<le> 10 ^ 14" by simp_all
  from parseTime_value_and_display [OF a h m bh bm, of "utcEnv 0"]
  have "isHHMM ''09:05''" using p by auto
  then show ?thesis using a h m p by simp
qed

text \<open>An hour of three digits is displayed with three digits.\<close>

theorem parseTime_display_counterexample:
  "parseTime (utcEnv 0) (Str ''100:5'') = Some \<lparr>str = ''100:05'', mins = 6005\<rparr> \<and>
   \<not> isHHMM ''100:05''"
proof -
  have a: "parseTime (utcEnv 0) (Str ''100:5'') = Some \<lparr>str = ''100:05'', mins = 6005\<rparr>"
    by code_simp
  have b: "\<not> isHHMM ''100:05''" by (simp add: isHHMM_def)
  show ?thesis using a b by simp
qed

subsection \<open>Hour and minute in digits\<close>

text \<open>The texts \<^verbatim>\<open>H:M\<close> and \<^verbatim>\<open>H.M\<close> written with the decimal digits of two natural numbers
  up to \<open>10^14\<close> parse to these numbers.\<close>

lemma isDigit_not_space: "isDigit c \<Longrightarrow> \<not> isWhiteSpace c"
  by (auto simp: isDigit_def isWhiteSpace_def)

lemma trim_id:
  assumes "s \<noteq> []" "\<not> isWhiteSpace (hd s)" "\<not> isWhiteSpace (last s)"
  shows "trim s = s"
proof -
  have a: "dropWhile isWhiteSpace s = s" using assms(1,2) by (cases s) simp_all
  have "rev s \<noteq> []" "\<not> isWhiteSpace (hd (rev s))" using assms(1,3) by (simp_all add: hd_rev)
  then have b: "dropWhile isWhiteSpace (rev s) = rev s" by (cases "rev s") simp_all
  show ?thesis by (simp add: trim_def a b)
qed

lemma split_none: "sep \<notin> set s \<Longrightarrow> split sep s = [s]"
proof -
  assume "sep \<notin> set s"
  then have d: "dropWhile (\<lambda>c. c \<noteq> sep) s = []" by (induction s) auto
  show ?thesis by (subst split.simps) (simp only: d list.case)
qed

lemma split_first: "sep \<notin> set a \<Longrightarrow> split sep (a @ sep # b) = a # split sep b"
proof -
  assume n: "sep \<notin> set a"
  then have d: "dropWhile (\<lambda>c. c \<noteq> sep) (a @ sep # b) = sep # b"
    by (induction a) auto
  have t: "takeWhile (\<lambda>c. c \<noteq> sep) (a @ sep # b) = a"
    using n by (induction a) auto
  show ?thesis by (subst split.simps) (simp only: d t list.case)
qed

lemma parseInt_digits:
  assumes "list_all isDigit ds" "ds \<noteq> []"
  shows "parseInt ds = Some (int (decValue ds))"
proof -
  obtain c cs where c: "ds = c # cs" using assms(2) by (cases ds) auto
  then have dc: "isDigit c" using assms(1) by simp
  have ts: "trimStart ds = ds" using c dc by (simp add: trimStart_def isDigit_not_space)
  have sg: "hd ds \<noteq> CHR ''+''" "hd ds \<noteq> CHR ''-''" using c dc by (auto simp: isDigit_def)
  show ?thesis
    using assms sg by (simp add: parseInt_def ts Let_def takeWhile_all)
qed

lemma parseTime_digit_strings:
  assumes "sep = CHR '':'' \<or> sep = CHR ''.''"
      and "h \<le> 10 ^ 14"
      and "m \<le> 10 ^ 14"
  shows "parseTime env (Str (natToString h @ sep # natToString m)) =
           Some \<lparr> str = padStart 2 CHR ''0'' (natToString h) @ '':'' @
                        padStart 2 CHR ''0'' (natToString m),
                  mins = 60 * int h + int m \<rparr>"
proof -
  define hs where "hs = natToString h"
  define ms where "ms = natToString m"
  define s where "s = hs @ sep # ms"
  have dh: "list_all isDigit hs" and dm: "list_all isDigit ms"
    by (simp_all add: hs_def ms_def natToString_digits)
  have nh: "hs \<noteq> []" and nm: "ms \<noteq> []"
    by (simp_all add: hs_def ms_def natToString_nonempty)
  have nd: "\<not> isDigit CHR '':''" "\<not> isDigit CHR ''.''" by (simp_all add: isDigit_def)
  have notin: "CHR '':'' \<notin> set hs" "CHR '':'' \<notin> set ms" "CHR ''.'' \<notin> set hs" "CHR ''.'' \<notin> set ms"
    using dh dm nd by (auto simp: list_all_iff)
  have hd: "isDigit (hd s)" using dh nh by (cases hs) (simp_all add: s_def)
  have "last s = last ms" using nm by (simp add: s_def)
  moreover have "isDigit (last ms)" using dm nm by (simp add: list_all_iff)
  ultimately have lst: "isDigit (last s)" by simp
  have tr: "trim s = s"
    using hd lst by (intro trim_id) (simp_all add: s_def isDigit_not_space)
  have sp: "split (if includesChar s CHR '':'' then CHR '':'' else CHR ''.'') s = [hs, ms]"
    using assms(1) notin by (auto simp: includesChar_def s_def split_first split_none)
  have ph: "parseInt hs = Some (int h)"
    using parseInt_digits [OF dh nh] by (simp add: hs_def decValue_natToString)
  have pm: "parseInt ms = Some (int m)"
    using parseInt_digits [OF dm nm] by (simp add: ms_def decValue_natToString)
  have "parseTime env (Str s) =
           Some \<lparr> str = padStart 2 CHR ''0'' (intToString (int h)) @ '':'' @
                        padStart 2 CHR ''0'' (intToString (int m)),
                  mins = int h * 60 + int m \<rparr>"
    using tr sp ph pm by (simp add: parseTime_def String_def Let_def s_def)
  then show ?thesis by (simp add: s_def hs_def ms_def intToString_def)
qed

section \<open>The date parser\<close>

lemma TimeClip_int:
  "TimeClip (Fin (of_int z)) = (if \<bar>z\<bar> > 8640000000000000 then None else Some z)"
proof -
  have "(\<bar>of_int z :: rat\<bar> > 8640000000000000) = (\<bar>z\<bar> > 8640000000000000)"
    by (metis of_int_abs of_int_less_iff of_int_numeral)
  then show ?thesis by (simp add: TimeClip_def)
qed

text \<open>A serial that is a whole number of days, within the hundred million days around the
  epoch that a date can hold: every step of the arithmetic is exact.\<close>

lemma parseDate_integer_serial:
  assumes "\<bar>k - 25569\<bar> \<le> 100000000"
  shows "parseDate env (Prim (Num (Fin (of_int k)))) = Some ((k - 25569) * 86400 * 1000)"
proof -
  define d where "d = k - 25569"
  have dk: "\<bar>d\<bar> \<le> 100000000" using assms by (simp add: d_def)
  have k: "\<bar>k\<bar> < 2 ^ 53" using assms by simp
  have c: "\<bar>25569 :: int\<bar> < 2 ^ 53" "\<bar>86400 :: int\<bar> < 2 ^ 53" "\<bar>1000 :: int\<bar> < 2 ^ 53"
    by simp_all
  have d1: "\<bar>d\<bar> < 2 ^ 53" using dk by simp
  have "\<bar>d * 86400\<bar> = \<bar>d\<bar> * 86400" by (simp add: abs_mult)
  then have d2: "\<bar>d * 86400\<bar> < 2 ^ 53" using dk by simp
  have "\<bar>d * 86400 * 1000\<bar> = \<bar>d\<bar> * 86400000" by (simp add: abs_mult)
  then have d3: "\<bar>d * 86400 * 1000\<bar> \<le> 8640000000000000" using dk by simp
  then have d4: "\<bar>d * 86400 * 1000\<bar> < 2 ^ 53" by simp
  have s1: "numSub (Fin (of_int k)) (Fin 25569) = Fin (of_int d)"
    using numSub_int [of k 25569] k c(1) d1 by (simp add: d_def)
  have s2: "numMul (Fin (of_int d)) (Fin 86400) = Fin (of_int (d * 86400))"
    using numMul_int [of d 86400] d1 c(2) d2 by simp
  have s3: "numMul (Fin (of_int (d * 86400))) (Fin 1000) = Fin (of_int (d * 86400 * 1000))"
    using numMul_int [of "d * 86400" 1000] d2 c(3) d4 by simp
  have s4: "MathRound (Fin (of_int (d * 86400 * 1000))) = Fin (of_int (d * 86400 * 1000))"
    using d4 by (rule MathRound_int)
  have "serialToMillis (Fin (of_int k)) = Fin (of_int (d * 86400 * 1000))"
    by (simp only: serialToMillis_def s1 s2 s3 s4)
  then have "parseDate env (Prim (Num (Fin (of_int k)))) = Some (d * 86400 * 1000)"
    using d3 by (simp add: parseDate_def TimeClip_int del: of_int_mult)
  then show ?thesis by (simp add: d_def)
qed

text \<open>
  Claim C6, as amended. On every cell the date parser returns a date value and signals no
  error. A native date is returned unchanged. A number is taken as a serial day count and
  converted to \<^verbatim>\<open>Math.round\<close> of the product \<open>(serial - 25569) * 86400 * 1000\<close>, computed in
  double arithmetic, as milliseconds since the Unix epoch, when that lies within the 8.64e15
  milliseconds of a date; for a serial that is a whole number of days this is exactly
  \<open>(serial - 25569) * 86400\<close> seconds. Text that the engine parses gives the parsed date, and
  text that fails to parse, like an absent cell, gives today.
\<close>

theorem parseDate_cases:
  "parseDate env (DateObject d) = d \<and>
   (MathRound (numMul (numMul (numSub n (Fin 25569)) (Fin 86400)) (Fin 1000)) = Fin (of_int ms) \<and>
    \<bar>ms\<bar> \<le> 8640000000000000 \<longrightarrow>
      parseDate env (Prim (Num n)) = Some ms) \<and>
   (\<bar>k - 25569\<bar> \<le> 100000000 \<longrightarrow>
      parseDate env (Prim (Num (Fin (of_int k)))) = Some ((k - 25569) * 86400 * 1000)) \<and>
   parseDate env (Prim (Str s)) =
     (case dateParse env s of None \<Rightarrow> Some (now env) | Some t \<Rightarrow> Some t) \<and>
   parseDate env (Prim Undefined) = Some (now env) \<and>
   parseDate env (Prim Null) = Some 0"
proof -
  have a: "parseDate env (DateObject d) = d" by (simp add: parseDate_def)
  have b: "parseDate env (Prim (Num n)) = Some ms"
    if "MathRound (numMul (numMul (numSub n (Fin 25569)) (Fin 86400)) (Fin 1000)) = Fin (of_int ms)"
      and "\<bar>ms\<bar> \<le> 8640000000000000"
    using that by (simp add: parseDate_def serialToMillis_def TimeClip_int)
  have c: "parseDate env (Prim (Num (Fin (of_int k)))) = Some ((k - 25569) * 86400 * 1000)"
    if "\<bar>k - 25569\<bar> \<le> 100000000"
    using that by (rule parseDate_integer_serial)
  have e: "parseDate env (Prim (Str s)) =
     (case dateParse env s of None \<Rightarrow> Some (now env) | Some t \<Rightarrow> Some t)"
    by (simp add: parseDate_def newDate_def split: option.splits)
  have f: "parseDate env (Prim Undefined) = Some (now env)" "parseDate env (Prim Null) = Some 0"
    by (simp_all add: parseDate_def newDate_def)
  show ?thesis using a b c e f by blast
qed

theorem parseDate_cases_witness:
  "MathRound (numMul (numMul (numSub (Fin (4544929659817708 / 10 ^ 11)) (Fin 25569)) (Fin 86400))
     (Fin 1000)) = Fin (of_int 1717657626083) \<and>
   parseDate (utcEnv 1700000000000) (Prim (Num (Fin (4544929659817708 / 10 ^ 11)))) =
     Some 1717657626083 \<and>
   parseDate (utcEnv 1700000000000) (Prim (Num (Fin (of_int 45200)))) = Some 1696118400000 \<and>
   parseDate (utcEnv 1700000000000) (Prim (Str ''n/a'')) = Some 1700000000000 \<and>
   parseDate (utcEnv 1700000000000) (Prim (Str ''2023-10-01'')) = Some 1696118400000"
proof -
  have r: "MathRound (numMul (numMul (numSub (Fin (4544929659817708 / 10 ^ 11)) (Fin 25569))
     (Fin 86400)) (Fin 1000)) = Fin (of_int 1717657626083)" by code_simp
  have m: "\<bar>1717657626083 :: int\<bar> \<le> 8640000000000000" by simp
  have k: "\<bar>45200 - 25569 :: int\<bar> \<le> 100000000" by simp
  have b: "dateParse (utcEnv 1700000000000) ''n/a'' = None" by code_simp
  have c: "dateParse (utcEnv 1700000000000) ''2023-10-01'' = Some 1696118400000" by code_simp
  have e: "now (utcEnv 1700000000000) = 1700000000000" by (simp add: utcEnv_def)
  note t1 = parseDate_cases [of "utcEnv 1700000000000" None "Fin (4544929659817708 / 10 ^ 11)"
      1717657626083 45200 "''n/a''"]
  note t2 = parseDate_cases [of "utcEnv 1700000000000" None "Fin (4544929659817708 / 10 ^ 11)"
      1717657626083 45200 "''2023-10-01''"]
  have p1: "parseDate (utcEnv 1700000000000) (Prim (Num (Fin (4544929659817708 / 10 ^ 11)))) =
     Some 1717657626083" using t1 r m by blast
  have p2: "parseDate (utcEnv 1700000000000) (Prim (Num (Fin (of_int 45200)))) =
     Some ((45200 - 25569) * 86400 * 1000)" using t1 k by blast
  have p3: "parseDate (utcEnv 1700000000000) (Prim (Str ''n/a'')) = Some 1700000000000"
    using t1 b e by simp
  have p4: "parseDate (utcEnv 1700000000000) (Prim (Str ''2023-10-01'')) = Some 1696118400000"
    using t2 c by simp
  show ?thesis using r p1 p2 p3 p4 by simp
qed

text \<open>A serial with a fraction of a second: the code rounds to the millisecond, the
  formula of the specification to the second.\<close>

theorem parseDate_seconds_counterexample:
  "parseDate (utcEnv 0) (Prim (Num (Fin (4520000001 / 100000)))) = Some 1696118400864 \<and>
   specSerialMillis (4520000001 / 100000) = 1696118401000"
proof -
  have a: "parseDate (utcEnv 0) (Prim (Num (Fin (4520000001 / 100000)))) = Some 1696118400864"
    by code_simp
  have b: "specSerialMillis (4520000001 / 100000) = 1696118401000" by code_simp
  show ?thesis using a b by simp
qed

section \<open>The two date parsers\<close>

text \<open>
  Claim C7, as amended. The serial-aware parser converts the number 45200 with the epoch
  offset 25569 and 86400 seconds per day (to 2023-10-01, UTC); the string-only parser has
  no conversion of serials and reads the number 45200 as milliseconds since the epoch. The
  two parsers return the same date for every native date and for every cell that is not a
  number.
\<close>

theorem serial_45200_parsers:
  "parseDate env (Prim (Num (Fin 45200))) = Some ((45200 - 25569) * 86400 * 1000) \<and>
   parseDateString env (Prim (Num (Fin 45200))) = Some 45200 \<and>
   parseDateString env (DateObject d) = parseDate env (DateObject d) \<and>
   ((\<forall>n. c \<noteq> Num n) \<longrightarrow> parseDateString env (Prim c) = parseDate env (Prim c))"
proof -
  have k: "\<bar>45200 - 25569 :: int\<bar> \<le> 100000000" by simp
  have "parseDate env (Prim (Num (Fin 45200))) = Some ((45200 - 25569) * 86400 * 1000)"
    using parseDate_integer_serial [OF k, of env] by simp
  moreover have "parseDateString env (Prim (Num (Fin 45200))) = Some 45200"
    by (simp add: parseDateString_def newDate_def TimeClip_def isValid_def)
  moreover have "parseDateString env (DateObject d) = parseDate env (DateObject d)"
    by (simp add: parseDateString_def parseDate_def)
  moreover have "(\<forall>n. c \<noteq> Num n) \<longrightarrow> parseDateString env (Prim c) = parseDate env (Prim c)"
    by (cases c) (auto simp: parseDateString_def parseDate_def isValid_def Let_def
        split: option.splits)
  ultimately show ?thesis by blast
qed

theorem serial_45200_parsers_witness:
  "parseDate (utcEnv 0) (Prim (Num (Fin 45200))) = Some 1696118400000 \<and>
   calendarDate (Some 1696118400000) = Some (2023, 10, 1) \<and>
   parseDateString (utcEnv 0) (Prim (Str ''2023-10-01'')) = Some 1696118400000 \<and>
   parseDate (utcEnv 0) (Prim (Str ''2023-10-01'')) = Some 1696118400000"
proof -
  have a: "parseDate (utcEnv 0) (Prim (Str ''2023-10-01'')) = Some 1696118400000" by code_simp
  have b: "calendarDate (Some 1696118400000) = Some (2023, 10, 1)" by code_simp
  have c: "\<forall>n. Str ''2023-10-01'' \<noteq> Num n" by simp
  show ?thesis
    using serial_45200_parsers [of "utcEnv 0" None "Str ''2023-10-01''"] a b c by simp
qed

text \<open>The calendar dates of the number 45200 under the two parsers.\<close>

theorem serial_45200_counterexample:
  "calendarDate (parseDate (utcEnv 0) (Prim (Num (Fin 45200)))) = Some (2023, 10, 1) \<and>
   calendarDate (parseDateString (utcEnv 0) (Prim (Num (Fin 45200)))) = Some (1970, 1, 1)"
proof -
  have a: "calendarDate (parseDate (utcEnv 0) (Prim (Num (Fin 45200)))) = Some (2023, 10, 1)"
    by code_simp
  have b: "calendarDate (parseDateString (utcEnv 0) (Prim (Num (Fin 45200)))) = Some (1970, 1, 1)"
    by code_simp
  show ?thesis using a b by simp
qed

section \<open>Dependence on the clock\<close>

lemma numberToString_now: "numberToString (env\<lparr>now := t\<rparr>) n = numberToString env n"
  by (cases n) (simp_all add: numberToString_def)

lemma String_now: "String (env\<lparr>now := t\<rparr>) c = String env c"
  by (cases c) (simp_all add: String_def numberToString_now)

lemma parseTime_now: "parseTime (env\<lparr>now := t\<rparr>) c = parseTime env c"
  by (simp add: parseTime_def String_now)

lemma getDay_now: "getDay (env\<lparr>now := t\<rparr>) d = getDay env d"
  by (cases d) (simp_all add: getDay_def)

lemma newDate_now: "newDate (env\<lparr>now := t\<rparr>) c = newDate env c"
  by (cases c) (simp_all add: newDate_def)

lemma parseDate_now:
  assumes "newDate env c \<noteq> None \<or> (\<exists>n. c = Num n)"
  shows "parseDate (env\<lparr>now := t\<rparr>) (Prim c) = parseDate env (Prim c)"
  using assms by (cases c) (auto simp: parseDate_def newDate_def)

lemma records_aggregate: "sRecords (aggregate env rs) = rs"
  by (simp add: aggregate_def summarize_def foldl_accumulate initAcc_def)

text \<open>
  Claim C8, as amended. The calculator is a function of the row and of the engine (time
  zone, date parser); its result does not depend on the time of evaluation when the Date
  cell is a number or is parsed by the engine. (Text that fails to parse, or an absent
  cell, is replaced by today.) The batch totals are a function of the record sequence
  alone: aggregating the records of a summary again gives the same summary.
\<close>

theorem metrics_clock_independence:
  assumes "newDate env (getCol row ''Date'') \<noteq> None \<or> (\<exists>n. getCol row ''Date'' = Num n)"
  shows "calculateDailyMetrics (env\<lparr>now := t1\<rparr>) row = calculateDailyMetrics (env\<lparr>now := t2\<rparr>) row \<and>
         aggregate env (sRecords (aggregate env rs)) = aggregate env rs"
proof -
  have "calculateDailyMetrics (env\<lparr>now := t\<rparr>) row = calculateDailyMetrics env row" for t
    using parseDate_now [OF assms, of t]
    by (simp add: calculateDailyMetrics_def parseTime_now getDay_now)
  then show ?thesis by (simp add: records_aggregate)
qed

theorem metrics_clock_independence_witness:
  "getCol wednesdayRow ''Date'' = Num (Fin 45203) \<and>
   calculateDailyMetrics ((utcEnv 0)\<lparr>now := 0\<rparr>) wednesdayRow =
     calculateDailyMetrics ((utcEnv 0)\<lparr>now := 259200000\<rparr>) wednesdayRow \<and>
   aggregate (utcEnv 0) (sRecords (aggregate (utcEnv 0) exampleRecords)) =
     aggregate (utcEnv 0) exampleRecords"
proof -
  have g: "getCol wednesdayRow ''Date'' = Num (Fin 45203)" by code_simp
  then have h: "newDate (utcEnv 0) (getCol wednesdayRow ''Date'') \<noteq> None \<or>
                (\<exists>n. getCol wednesdayRow ''Date'' = Num n)" by simp
  show ?thesis
    using g metrics_clock_independence [OF h, of 0 259200000 exampleRecords] by simp
qed

text \<open>The same row with an unparsable date, evaluated on a Thursday and on a Sunday.\<close>

theorem metrics_clock_counterexample:
  "calculateDailyMetrics (utcEnv 0) undatedRow =
     Inr \<lparr>date = ''1970-01-01T00:00:00.000Z'', dayName = ''Weekday'', inTime = ''09:00'',
          outTime = ''17:30'', expectedHours = 17 / 2, workedHours = 17 / 2, isLeave = False\<rparr> \<and>
   calculateDailyMetrics (utcEnv 259200000) undatedRow =
     Inr \<lparr>date = ''1970-01-04T00:00:00.000Z'', dayName = ''Sunday'', inTime = ''09:00'',
          outTime = ''17:30'', expectedHours = 0, workedHours = 0, isLeave = False\<rparr> \<and>
   calculateDailyMetrics (utcEnv 0) undatedRow \<noteq> calculateDailyMetrics (utcEnv 259200000) undatedRow"
proof -
  have a: "calculateDailyMetrics (utcEnv 0) undatedRow =
     Inr \<lparr>date = ''1970-01-01T00:00:00.000Z'', dayName = ''Weekday'', inTime = ''09:00'',
          outTime = ''17:30'', expectedHours = 17 / 2, workedHours = 17 / 2, isLeave = False\<rparr>"
    by code_simp
  have b: "calculateDailyMetrics (utcEnv 259200000) undatedRow =
     Inr \<lparr>date = ''1970-01-04T00:00:00.000Z'', dayName = ''Sunday'', inTime = ''09:00'',
          outTime = ''17:30'', expectedHours = 0, workedHours = 0, isLeave = False\<rparr>"
    by code_simp
  show ?thesis unfolding a b by simp
qed

end
